theory Spec2Isabelle
  imports Main "HOL-Library.Multiset"
begin

section \<open>JavaScript values\<close>

text \<open>
  A JavaScript \<^verbatim>\<open>number\<close> is modelled as an exact integer: amounts are whole currency
  units and floating-point rounding is not part of the model. A string is a list of
  characters, with code units restricted to the range 0..255.
\<close>

type_synonym number = int

text \<open>\<^verbatim>\<open>x || 0\<close> on a number that may be \<^verbatim>\<open>undefined\<close>: undefined and 0 both give 0.\<close>

definition or_zero :: "number option \<Rightarrow> number" where
  "or_zero v = (case v of None \<Rightarrow> 0 | Some n \<Rightarrow> n)"

text \<open>
  Relational comparison \<^verbatim>\<open>a <= b\<close> of two strings: lexicographic on the code units,
  a proper prefix being smaller.
\<close>

fun str_le :: "string \<Rightarrow> string \<Rightarrow> bool" where
  "str_le [] b = True"
| "str_le (x # a) [] = False"
| "str_le (x # a) (y # b) =
     (if x = y then str_le a b else (of_char x :: nat) < of_char y)"

subsection \<open>Plain objects used as dictionaries\<close>

text \<open>
  An object literal \<^verbatim>\<open>{}\<close> filled by assignments is a list of (key, value) pairs in
  order of creation; a well-formed object has distinct keys. Reading a key gives
  \<^verbatim>\<open>undefined\<close> (\<open>None\<close>) when it is absent. Writing an existing key keeps its
  position, writing a new key appends it. \<open>obj_get\<close> reads own properties only; the
  payment, quota and collection-day objects are read at date keys (YYYY-MM-DD), which
  name no inherited property. The category object, whose keys are free text, is read
  through the prototype chain with \<open>prop_get\<close> below.
\<close>

type_synonym 'v js_object = "(string \<times> 'v) list"

definition obj_get :: "'v js_object \<Rightarrow> string \<Rightarrow> 'v option" where
  "obj_get obj k = map_of obj k"

fun obj_set :: "'v js_object \<Rightarrow> string \<Rightarrow> 'v \<Rightarrow> 'v js_object" where
  "obj_set [] k v = [(k, v)]"
| "obj_set (p # ps) k v = (if fst p = k then (k, v) # ps else p # obj_set ps k v)"

text \<open>
  \<^verbatim>\<open>Object.keys\<close> and \<^verbatim>\<open>Object.values\<close> enumerate own properties in the order of
  OrdinaryOwnPropertyKeys: first the keys that are array indices (the canonical decimal
  form of an integer from 0 to 2^32 - 2) in ascending numeric order, then every other
  string key in order of creation.
\<close>

definition is_digit :: "char \<Rightarrow> bool" where
  "is_digit c \<longleftrightarrow> 48 \<le> (of_char c :: nat) \<and> (of_char c :: nat) \<le> 57"

definition decimal_value :: "string \<Rightarrow> nat" where
  "decimal_value k = foldl (\<lambda>n c. 10 * n + (of_char c - 48)) 0 k"

definition is_array_index :: "string \<Rightarrow> bool" where
  "is_array_index k \<longleftrightarrow>
     k \<noteq> [] \<and> list_all is_digit k \<and> (k = ''0'' \<or> take 1 k \<noteq> ''0'')
     \<and> decimal_value k < 4294967295"

definition Object_entries :: "'v js_object \<Rightarrow> (string \<times> 'v) list" where
  "Object_entries obj =
     sort_key (\<lambda>p. decimal_value (fst p)) (filter (\<lambda>p. is_array_index (fst p)) obj)
     @ filter (\<lambda>p. \<not> is_array_index (fst p)) obj"

definition Object_keys :: "'v js_object \<Rightarrow> string list" where
  "Object_keys obj = map fst (Object_entries obj)"

definition Object_values :: "'v js_object \<Rightarrow> 'v list" where
  "Object_values obj = map snd (Object_entries obj)"

subsection \<open>Array.prototype.sort\<close>

text \<open>
  \<^verbatim>\<open>xs.sort(cmp)\<close> is a stable sort (ECMAScript 2019): with a consistent comparator the
  result is the one of insertion sort that puts an element before the elements it does
  not follow.
\<close>

fun js_insert :: "('a \<Rightarrow> 'a \<Rightarrow> number) \<Rightarrow> 'a \<Rightarrow> 'a list \<Rightarrow> 'a list" where
  "js_insert cmp x [] = [x]"
| "js_insert cmp x (y # ys) =
     (if cmp x y \<le> 0 then x # y # ys else y # js_insert cmp x ys)"

definition js_sort :: "('a \<Rightarrow> 'a \<Rightarrow> number) \<Rightarrow> 'a list \<Rightarrow> 'a list" where
  "js_sort cmp xs = foldr (js_insert cmp) xs []"

text \<open>The default comparator of \<^verbatim>\<open>sort()\<close> on strings: order of the code units.\<close>

definition default_compare :: "string \<Rightarrow> string \<Rightarrow> number" where
  "default_compare a b = (if a = b then 0 else if str_le a b then - 1 else 1)"

section \<open>Data model (types)\<close>

datatype gender = M | F

record student =
  student_id :: string
  student_name :: string
  student_gender :: gender
  payments :: "number js_object"

datatype tx_type = EXPENSE | INCOME

datatype tx_status = PAID | PENDING

record transaction =
  tx_id :: string
  amount :: number
  tx_date :: string
  description :: string
  tx_type :: tx_type
  category :: "string option"
  status :: "tx_status option"

datatype priority = High | Medium | Low

record planned_expense =
  planned_id :: string
  item :: string
  estimatedCost :: number
  priority :: priority
  planned_notes :: "string option"

record app_settings =
  dailyQuota :: number
  customQuotas :: "number js_object"
  collectionDays :: "bool js_object"
  currencySymbol :: string

section \<open>The store (services/db.ts)\<close>

text \<open>
  Each table is one localStorage key; \<open>None\<close> is a key that was never written, for
  which \<^verbatim>\<open>get\<close> returns the default. \<^verbatim>\<open>localStorage.setItem\<close> may throw (quota
  exceeded); \<open>accepts\<close> says for which table it succeeds. \<^verbatim>\<open>set\<close> catches the
  exception and logs it, so a rejected write leaves the table as it was and the caller
  continues.
\<close>

datatype table = STUDENTS | TRANSACTIONS | PLANNED_EXPENSES | SETTINGS

record database =
  tbl_students :: "student list option"
  tbl_transactions :: "transaction list option"
  tbl_planned_expenses :: "planned_expense list option"
  tbl_settings :: "app_settings option"
  accepts :: "table \<Rightarrow> bool"

text \<open>
  The default currency symbol is the peso sign, outside the modelled range of code
  units; it is written \<open>P\<close> here and takes part in no computation.
\<close>

definition DEFAULT_SETTINGS :: app_settings where
  "DEFAULT_SETTINGS =
     \<lparr>dailyQuota = 5, customQuotas = [], collectionDays = [], currencySymbol = ''P''\<rparr>"

definition getSettings :: "database \<Rightarrow> app_settings" where
  "getSettings db = (case tbl_settings db of None \<Rightarrow> DEFAULT_SETTINGS | Some s \<Rightarrow> s)"

definition saveSettings :: "app_settings \<Rightarrow> database \<Rightarrow> database" where
  "saveSettings s db = (if accepts db SETTINGS then db\<lparr>tbl_settings := Some s\<rparr> else db)"

text \<open>The roster the store starts from (constants module).\<close>

definition INITIAL_STUDENTS :: "student list" where
  "INITIAL_STUDENTS =
    [\<lparr>student_id = ''m1'', student_name = ''Agarao, Franco Angelo'',
       student_gender = M, payments = []\<rparr>,
     \<lparr>student_id = ''m2'', student_name = ''Bobares, John Marel'',
       student_gender = M, payments = []\<rparr>,
     \<lparr>student_id = ''m3'', student_name = ''Borrico, Ralph Syrill'',
       student_gender = M, payments = []\<rparr>,
     \<lparr>student_id = ''m4'', student_name = ''Espago, Mart Sandy'',
       student_gender = M, payments = []\<rparr>,
     \<lparr>student_id = ''m5'', student_name = ''Garopel, Symon Patrick'',
       student_gender = M, payments = []\<rparr>,
     \<lparr>student_id = ''m6'', student_name = ''Handog, Shane Kian'',
       student_gender = M, payments = []\<rparr>,
     \<lparr>student_id = ''m7'', student_name = ''Hingada, Chris Michael'',
       student_gender = M, payments = []\<rparr>,
     \<lparr>student_id = ''m8'', student_name = ''Ignacio, Nash Paul'',
       student_gender = M, payments = []\<rparr>,
     \<lparr>student_id = ''m9'', student_name = ''Libot, Jake'',
       student_gender = M, payments = []\<rparr>,
     \<lparr>student_id = ''m10'', student_name = ''Luna, John Paul'',
       student_gender = M, payments = []\<rparr>,
     \<lparr>student_id = ''m11'', student_name = ''Monterey, Mhiko'',
       student_gender = M, payments = []\<rparr>,
     \<lparr>student_id = ''m12'', student_name = ''Namuco, John Peter'',
       student_gender = M, payments = []\<rparr>,
     \<lparr>student_id = ''m13'', student_name = ''Reyes, Jose Antonio Lorenzo'',
       student_gender = M, payments = []\<rparr>,
     \<lparr>student_id = ''m14'', student_name = ''Sadian, John Zen'',
       student_gender = M, payments = []\<rparr>,
     \<lparr>student_id = ''m15'', student_name = ''Talon, Denzel'',
       student_gender = M, payments = []\<rparr>,
     \<lparr>student_id = ''f1'', student_name = ''Baldespinosa, Joanah Mae'',
       student_gender = F, payments = []\<rparr>,
     \<lparr>student_id = ''f2'', student_name = ''Cacayuran, Zaicy'',
       student_gender = F, payments = []\<rparr>,
     \<lparr>student_id = ''f3'', student_name = ''Dalay, Shairah Mae'',
       student_gender = F, payments = []\<rparr>,
     \<lparr>student_id = ''f4'', student_name = ''Dela Cruz, Janil Jhane'',
       student_gender = F, payments = []\<rparr>,
     \<lparr>student_id = ''f5'', student_name = ''Espenocilla, Sally'',
       student_gender = F, payments = []\<rparr>,
     \<lparr>student_id = ''f6'', student_name = ''Flores, Frances Miche Janne'',
       student_gender = F, payments = []\<rparr>,
     \<lparr>student_id = ''f7'', student_name = ''Gayatgay, Richell'',
       student_gender = F, payments = []\<rparr>,
     \<lparr>student_id = ''f8'', student_name = ''Handog, Princess Jenn'',
       student_gender = F, payments = []\<rparr>,
     \<lparr>student_id = ''f9'', student_name = ''Herrera, Kim Caullie'',
       student_gender = F, payments = []\<rparr>,
     \<lparr>student_id = ''f10'', student_name = ''Napalan, Reynalin Rose'',
       student_gender = F, payments = []\<rparr>,
     \<lparr>student_id = ''f11'', student_name = ''Panganod, Kylle Erica'',
       student_gender = F, payments = []\<rparr>,
     \<lparr>student_id = ''f12'', student_name = ''Sabater, Nian Joyce'',
       student_gender = F, payments = []\<rparr>,
     \<lparr>student_id = ''f13'', student_name = ''Salcedo, Rosemarie'',
       student_gender = F, payments = []\<rparr>,
     \<lparr>student_id = ''f14'', student_name = ''Sastrillo, Eunice Christen'',
       student_gender = F, payments = []\<rparr>,
     \<lparr>student_id = ''f15'', student_name = ''Set, January Ross'',
       student_gender = F, payments = []\<rparr>,
     \<lparr>student_id = ''f16'', student_name = ''Taduran, Cedi'',
       student_gender = F, payments = []\<rparr>,
     \<lparr>student_id = ''f17'', student_name = ''Uylengco, Fatima'',
       student_gender = F, payments = []\<rparr>,
     \<lparr>student_id = ''f18'', student_name = ''Wee Sit, Jazzryl Faith'',
       student_gender = F, payments = []\<rparr>]"

definition getStudents :: "database \<Rightarrow> student list" where
  "getStudents db =
     (case tbl_students db of None \<Rightarrow> INITIAL_STUDENTS | Some xs \<Rightarrow> xs)"

definition saveStudents :: "student list \<Rightarrow> database \<Rightarrow> database" where
  "saveStudents xs db = (if accepts db STUDENTS then db\<lparr>tbl_students := Some xs\<rparr> else db)"

definition getTransactions :: "database \<Rightarrow> transaction list" where
  "getTransactions db = (case tbl_transactions db of None \<Rightarrow> [] | Some xs \<Rightarrow> xs)"

definition saveTransactions :: "transaction list \<Rightarrow> database \<Rightarrow> database" where
  "saveTransactions xs db =
     (if accepts db TRANSACTIONS then db\<lparr>tbl_transactions := Some xs\<rparr> else db)"

text \<open>
  \<^verbatim>\<open>addExpense\<close> reads the clock twice: \<open>now_ms\<close> is \<^verbatim>\<open>Date.now().toString()\<close> and
  \<open>now_iso\<close> is \<^verbatim>\<open>new Date().toISOString()\<close>.
\<close>

definition addExpense ::
  "string \<Rightarrow> string \<Rightarrow> number \<Rightarrow> string \<Rightarrow> string \<Rightarrow> database \<Rightarrow> database" where
  "addExpense now_ms now_iso amt desc cat db =
     (let txs = getTransactions db;
          newTx = \<lparr>tx_id = now_ms, amount = amt, tx_date = now_iso, description = desc,
                   tx_type = EXPENSE, category = Some cat, status = Some PAID\<rparr>
      in saveTransactions (txs @ [newTx]) db)"

definition getPlannedExpenses :: "database \<Rightarrow> planned_expense list" where
  "getPlannedExpenses db = (case tbl_planned_expenses db of None \<Rightarrow> [] | Some xs \<Rightarrow> xs)"

definition savePlannedExpenses :: "planned_expense list \<Rightarrow> database \<Rightarrow> database" where
  "savePlannedExpenses xs db =
     (if accepts db PLANNED_EXPENSES then db\<lparr>tbl_planned_expenses := Some xs\<rparr> else db)"

definition deletePlannedExpense :: "string \<Rightarrow> database \<Rightarrow> database" where
  "deletePlannedExpense pid db =
     (let plans = filter (\<lambda>p. planned_id p \<noteq> pid) (getPlannedExpenses db)
      in savePlannedExpenses plans db)"

section \<open>The funds component (ClassFunds)\<close>

text \<open>
  The component state: the React state variables the ledger operations read or write,
  and the store. A confirmation dialog holds a pending action, a closure over the values
  of the render in which it was created; \<open>MarkAll\<close> records the captured roster,
  settings and selected date, \<open>ConvertWish\<close> the captured planned expense.
\<close>

datatype confirm_action =
  MarkAll bool "student list" app_settings string
| ConvertWish planned_expense

record funds =
  students :: "student list"
  expenses :: "transaction list"
  plannedExpenses :: "planned_expense list"
  settings :: app_settings
  selectedDate :: string
  modals_confirm :: bool
  confirmAction :: "confirm_action option"
  db :: database

definition refreshData :: "funds \<Rightarrow> funds" where
  "refreshData st =
     st\<lparr>students := getStudents (db st),
        expenses := getTransactions (db st),
        plannedExpenses := getPlannedExpenses (db st),
        settings := getSettings (db st)\<rparr>"

definition isCollectionActive :: "app_settings \<Rightarrow> string \<Rightarrow> bool" where
  "isCollectionActive s date \<longleftrightarrow> obj_get (collectionDays s) date = Some True"

definition getQuotaForDate :: "app_settings \<Rightarrow> string \<Rightarrow> number" where
  "getQuotaForDate s date =
     (if isCollectionActive s date
      then (case obj_get (customQuotas s) date of None \<Rightarrow> dailyQuota s | Some q \<Rightarrow> q)
      else 0)"

definition toggleCollectionDay :: "funds \<Rightarrow> funds" where
  "toggleCollectionDay st =
     (let isActive = isCollectionActive (settings st) (selectedDate st);
          newSettings = (settings st)\<lparr>collectionDays :=
             obj_set (collectionDays (settings st)) (selectedDate st) (\<not> isActive)\<rparr>
      in st\<lparr>settings := newSettings, db := saveSettings newSettings (db st)\<rparr>)"

definition updateStudentPayment :: "string \<Rightarrow> number \<Rightarrow> string \<Rightarrow> funds \<Rightarrow> funds" where
  "updateStudentPayment sid amt date st =
     (let updated = map (\<lambda>s. if student_id s \<noteq> sid then s
                              else s\<lparr>payments := obj_set (payments s) date amt\<rparr>)
                        (students st)
      in st\<lparr>students := updated, db := saveStudents updated (db st)\<rparr>)"

definition togglePayment :: "string \<Rightarrow> funds \<Rightarrow> funds" where
  "togglePayment studentId st =
     (if \<not> isCollectionActive (settings st) (selectedDate st) then st
      else case find (\<lambda>s. student_id s = studentId) (students st) of
             None \<Rightarrow> st
           | Some s \<Rightarrow>
               (let quota = getQuotaForDate (settings st) (selectedDate st);
                    current = or_zero (obj_get (payments s) (selectedDate st));
                    newAmt = (if current \<ge> quota then 0 else quota)
                in updateStudentPayment studentId newAmt (selectedDate st) st))"

definition markAll :: "bool \<Rightarrow> funds \<Rightarrow> funds" where
  "markAll paid st =
     (if \<not> isCollectionActive (settings st) (selectedDate st) then st
      else st\<lparr>confirmAction :=
                 Some (MarkAll paid (students st) (settings st) (selectedDate st)),
              modals_confirm := True\<rparr>)"

definition convertWishToExpense :: "planned_expense \<Rightarrow> funds \<Rightarrow> funds" where
  "convertWishToExpense wish st =
     st\<lparr>confirmAction := Some (ConvertWish wish), modals_confirm := True\<rparr>"

text \<open>
  The Confirm button of the dialog runs the pending action (nothing when there is none).
  \<open>now_ms\<close> and \<open>now_iso\<close> are the clock readings of \<^verbatim>\<open>addExpense\<close>.
\<close>

fun run_action :: "string \<Rightarrow> string \<Rightarrow> confirm_action \<Rightarrow> funds \<Rightarrow> funds" where
  "run_action now_ms now_iso (MarkAll paid studs sett date) st =
     (let quota = getQuotaForDate sett date;
          updated = map (\<lambda>s. s\<lparr>payments :=
                       obj_set (payments s) date (if paid then quota else 0)\<rparr>) studs
      in st\<lparr>students := updated, db := saveStudents updated (db st),
            modals_confirm := False\<rparr>)"
| "run_action now_ms now_iso (ConvertWish wish) st =
     (let db1 = addExpense now_ms now_iso (estimatedCost wish) (item wish) ''Materials'' (db st);
          db2 = deletePlannedExpense (planned_id wish) db1
      in (refreshData (st\<lparr>db := db2\<rparr>))\<lparr>modals_confirm := False\<rparr>)"

definition onConfirm :: "string \<Rightarrow> string \<Rightarrow> funds \<Rightarrow> funds" where
  "onConfirm now_ms now_iso st =
     (case confirmAction st of
        None \<Rightarrow> st
      | Some a \<Rightarrow> run_action now_ms now_iso a st)"

section \<open>Derived figures (the \<^verbatim>\<open>financials\<close> memo)\<close>

text \<open>
  A \<^verbatim>\<open>Date\<close> object as the component reads it: the text of \<^verbatim>\<open>toISOString()\<close>, which
  is in UTC, and the fields of the local calendar. \<^verbatim>\<open>new Date()\<close> is a reading of the
  clock, an input of the code that makes it.
\<close>

record js_date =
  toISOString :: string
  getFullYear :: nat
  getMonth :: nat
  getDate :: nat

text \<open>\<^verbatim>\<open>String(n)\<close> for a natural number and \<^verbatim>\<open>padStart(2, '0')\<close>.\<close>

fun String_of_nat :: "nat \<Rightarrow> string" where
  "String_of_nat n =
     (if n < 10 then [char_of (48 + n)]
      else String_of_nat (n div 10) @ [char_of (48 + n mod 10)])"

declare String_of_nat.simps [simp del]

definition padStart2 :: "string \<Rightarrow> string" where
  "padStart2 x = replicate (2 - length x) (CHR ''0'') @ x"

text \<open>The helper of the second variant: the local calendar date as YYYY-MM-DD.\<close>

definition toLocalISO :: "js_date \<Rightarrow> string" where
  "toLocalISO date =
     (let y = getFullYear date;
          m = padStart2 (String_of_nat (getMonth date + 1));
          d = padStart2 (String_of_nat (getDate date))
      in String_of_nat y @ ''-'' @ m @ ''-'' @ d)"

text \<open>\<^verbatim>\<open>date.toISOString().split('T')[0]\<close>: the UTC date.\<close>

definition utc_day :: "js_date \<Rightarrow> string" where
  "utc_day date = takeWhile (\<lambda>c. c \<noteq> CHR ''T'') (toISOString date)"

text \<open>
  The dates that count for debt. The first variant of the component keeps a memoised,
  sorted list (\<open>activeCollectionDates\<close>), rebuilt when \<open>collectionDays\<close> changes; the
  callback of its filter makes a new \<^verbatim>\<open>Date\<close> for the key it examines and compares the
  key with the UTC date. \<open>clock i\<close> is the reading made for the key at position \<open>i\<close>.
  The second variant computes \<open>today\<close> once at the start of the debt calculation, as
  the local date, and filters the keys with it (\<open>activeDates\<close>).
\<close>

definition activeCollectionDates :: "(nat \<Rightarrow> js_date) \<Rightarrow> app_settings \<Rightarrow> string list" where
  "activeCollectionDates clock s =
     js_sort default_compare
       (map snd
         (filter (\<lambda>(i, d). obj_get (collectionDays s) d = Some True
                            \<and> str_le d (utc_day (clock i)))
                 (enumerate 0 (Object_keys (collectionDays s)))))"

definition activeDates :: "string \<Rightarrow> app_settings \<Rightarrow> string list" where
  "activeDates today s =
     filter (\<lambda>d. obj_get (collectionDays s) d = Some True \<and> str_le d today)
            (Object_keys (collectionDays s))"

text \<open>
  The body of the callback of \<^verbatim>\<open>students.map\<close>: the loop over the dates accumulates
  \<open>paid\<close> and \<open>owe\<close>, and the debt is \<^verbatim>\<open>Math.max(0, owe - paid)\<close>.
\<close>

definition paid_owe :: "app_settings \<Rightarrow> string list \<Rightarrow> student \<Rightarrow> number \<times> number" where
  "paid_owe s dates stu =
     foldl (\<lambda>(paid, owe) date.
              (let q = (case obj_get (customQuotas s) date of
                          None \<Rightarrow> dailyQuota s | Some c \<Rightarrow> c);
                   p = or_zero (obj_get (payments stu) date)
               in (paid + p, owe + q)))
           (0, 0) dates"

definition student_debt :: "app_settings \<Rightarrow> string list \<Rightarrow> student \<Rightarrow> number" where
  "student_debt s dates stu = (case paid_owe s dates stu of (paid, owe) \<Rightarrow> max 0 (owe - paid))"

text \<open>A debtor is the student record extended with the field \<open>debt\<close>.\<close>

type_synonym debtor = "student \<times> number"

definition debt :: "debtor \<Rightarrow> number" where
  "debt d = snd d"

definition compute_debtors :: "app_settings \<Rightarrow> string list \<Rightarrow> student list \<Rightarrow> debtor list" where
  "compute_debtors s dates studs =
     js_sort (\<lambda>a b. debt b - debt a)
       (filter (\<lambda>d. debt d > 0) (map (\<lambda>stu. (stu, student_debt s dates stu)) studs))"

text \<open>
  The pie chart data: \<open>cats\<close> is an object filled in the order of the expenses, a missing
  or empty category counting as \<open>Other\<close>; \<open>pieData\<close> lists \<^verbatim>\<open>Object.keys(cats)\<close> with
  the value read back from \<open>cats\<close>.
\<close>

definition category_or_other :: "transaction \<Rightarrow> string" where
  "category_or_other e =
     (case category e of None \<Rightarrow> ''Other'' | Some c \<Rightarrow> if c = [] then ''Other'' else c)"

text \<open>
  \<open>cats\<close> starts as \<^verbatim>\<open>{}\<close>, whose prototype is \<^verbatim>\<open>Object.prototype\<close>. Reading
  \<^verbatim>\<open>cats[k]\<close> for a key that is not an own property gives the inherited property when
  \<open>k\<close> names one: a built-in function, or for \<^verbatim>\<open>__proto__\<close> the prototype object
  itself. The values that occur are numbers and strings; a string here is the text of
  such an inherited value followed by the decimal forms of the amounts added to it, and
  is kept as its origin and the list of those amounts (the text of a built-in function
  depends on the engine; it is never empty).
\<close>

definition Object_prototype_functions :: "string list" where
  "Object_prototype_functions =
     [''constructor'', ''__defineGetter__'', ''__defineSetter__'', ''hasOwnProperty'',
      ''__lookupGetter__'', ''__lookupSetter__'', ''isPrototypeOf'',
      ''propertyIsEnumerable'', ''toString'', ''valueOf'', ''toLocaleString'']"

definition Object_prototype_names :: "string list" where
  "Object_prototype_names = ''__proto__'' # Object_prototype_functions"

datatype text_origin = FunctionSource string | ObjectObject

datatype js_value =
  Undefined
| Num number
| Text text_origin "number list"
| InheritedFunction string
| ObjectPrototype

definition prop_get :: "js_value js_object \<Rightarrow> string \<Rightarrow> js_value" where
  "prop_get obj k =
     (case obj_get obj k of
        Some v \<Rightarrow> v
      | None \<Rightarrow>
          if k = ''__proto__'' then ObjectPrototype
          else if k \<in> set Object_prototype_functions then InheritedFunction k
          else Undefined)"

text \<open>
  \<^verbatim>\<open>(v || 0) + a\<close> for a number \<open>a\<close>: undefined and 0 are replaced by 0 and the sum
  is a number; a string, a function and an object are truthy, and adding a number to
  one of them appends the decimal form of the number to its text (\<open>[object Object]\<close>
  for the prototype object).
\<close>

fun or_zero_plus :: "js_value \<Rightarrow> number \<Rightarrow> js_value" where
  "or_zero_plus Undefined a = Num a"
| "or_zero_plus (Num n) a = Num (n + a)"
| "or_zero_plus (Text origin as) a = Text origin (as @ [a])"
| "or_zero_plus (InheritedFunction k) a = Text (FunctionSource k) [a]"
| "or_zero_plus ObjectPrototype a = Text ObjectObject [a]"

text \<open>
  \<^verbatim>\<open>cats[k] = v\<close> for a number or string \<open>v\<close>: an own property is written or created,
  except for \<^verbatim>\<open>__proto__\<close>, whose inherited setter ignores a value that is not an
  object.
\<close>

definition prop_set :: "js_value js_object \<Rightarrow> string \<Rightarrow> js_value \<Rightarrow> js_value js_object" where
  "prop_set obj k v = (if k = ''__proto__'' then obj else obj_set obj k v)"

definition add_to_cats :: "js_value js_object \<Rightarrow> transaction \<Rightarrow> js_value js_object" where
  "add_to_cats cats e =
     prop_set cats (category_or_other e)
       (or_zero_plus (prop_get cats (category_or_other e)) (amount e))"

definition compute_cats :: "transaction list \<Rightarrow> js_value js_object" where
  "compute_cats es = foldl add_to_cats [] es"

definition compute_pieData :: "transaction list \<Rightarrow> (string \<times> js_value) list" where
  "compute_pieData es =
     (let cats = compute_cats es
      in map (\<lambda>name. (name, prop_get cats name)) (Object_keys cats))"

record financials =
  totalIncome :: number
  totalExpenses :: number
  currentBalance :: number
  debtors :: "debtor list"
  totalDebt :: number
  totalWishlist :: number
  pieData :: "(string \<times> js_value) list"

definition compute_totalIncome :: "student list \<Rightarrow> number" where
  "compute_totalIncome studs =
     foldl (\<lambda>total s. foldl (\<lambda>t a. t + a) total (Object_values (payments s))) 0 studs"

definition compute_financials :: "string list \<Rightarrow> funds \<Rightarrow> financials" where
  "compute_financials dates st =
     (let income = compute_totalIncome (students st);
          spent = foldl (\<lambda>sum tx. sum + amount tx) 0 (expenses st);
          ds = compute_debtors (settings st) dates (students st)
      in \<lparr>totalIncome = income,
          totalExpenses = spent,
          currentBalance = income - spent,
          debtors = ds,
          totalDebt = foldl (\<lambda>sum d. sum + debt d) 0 ds,
          totalWishlist = foldl (\<lambda>sum p. sum + estimatedCost p) 0 (plannedExpenses st),
          pieData = compute_pieData (expenses st)\<rparr>)"

text \<open>
  The two variants of the component differ only in the list of dates. In the first the
  list is the memoised one: \<open>memo_clock\<close> holds the readings made when the list was
  built, which is not when the figures are computed. In the second \<open>now\<close> is the one
  reading of the pass.
\<close>

definition financials_memo :: "(nat \<Rightarrow> js_date) \<Rightarrow> funds \<Rightarrow> financials" where
  "financials_memo memo_clock st =
     compute_financials (activeCollectionDates memo_clock (settings st)) st"

definition financials_today :: "js_date \<Rightarrow> funds \<Rightarrow> financials" where
  "financials_today now st =
     (let today = toLocalISO now
      in compute_financials (activeDates today (settings st)) st)"

section \<open>Roster import (\<^verbatim>\<open>importStudentsFromText\<close>)\<close>

text \<open>
  \<^verbatim>\<open>text.split(/\r?\n/)\<close>: the text is cut at every line feed, and a carriage return
  directly before the line feed belongs to the separator. \<open>cur\<close> is the current piece,
  reversed.
\<close>

definition LF :: char where "LF = CHR 0x0A"
definition CR :: char where "CR = CHR 0x0D"

fun split_aux :: "string \<Rightarrow> string \<Rightarrow> string list" where
  "split_aux cur [] = [rev cur]"
| "split_aux cur (c # cs) =
     (if c = LF
      then rev (case cur of [] \<Rightarrow> [] | r # rest \<Rightarrow> if r = CR then rest else cur)
           # split_aux [] cs
      else split_aux (c # cur) cs)"

definition split_lines :: "string \<Rightarrow> string list" where
  "split_lines txt = split_aux [] txt"

text \<open>
  \<^verbatim>\<open>trim\<close> removes white space and line terminators at both ends; among the code units
  0..255 these are TAB, LF, VT, FF, CR, SPACE and NBSP.
\<close>

definition is_space :: "char \<Rightarrow> bool" where
  "is_space c \<longleftrightarrow> (of_char c :: nat) \<in> {9, 10, 11, 12, 13, 32, 160}"

definition trim :: "string \<Rightarrow> string" where
  "trim s = rev (dropWhile is_space (rev (dropWhile is_space s)))"

text \<open>
  \<^verbatim>\<open>toUpperCase\<close> is used only in front of \<^verbatim>\<open>startsWith\<close> with a two-character pattern
  made of F, M, space and comma. The model maps a..z to A..Z and leaves every other
  character alone: no other character has an upper-case form that begins with F or M
  followed by a space or a comma.
\<close>

definition upper_char :: "char \<Rightarrow> char" where
  "upper_char c =
     (if 97 \<le> (of_char c :: nat) \<and> (of_char c :: nat) \<le> 122
      then char_of ((of_char c :: nat) - 32) else c)"

definition toUpperCase :: "string \<Rightarrow> string" where
  "toUpperCase s = map upper_char s"

definition startsWith :: "string \<Rightarrow> string \<Rightarrow> bool" where
  "startsWith s p \<longleftrightarrow> take (length p) s = p"

definition strip_commas :: "string \<Rightarrow> string" where
  "strip_commas s = filter (\<lambda>c. c \<noteq> CHR '','') s"

text \<open>
  The callback of \<^verbatim>\<open>lines.map\<close>. The id of a new student is made from the clock and a
  random number; \<open>new_id\<close> is the id the callback draws.
\<close>

definition parse_line :: "string \<Rightarrow> string \<Rightarrow> student" where
  "parse_line new_id line =
     (if startsWith (toUpperCase line) ''F '' \<or> startsWith (toUpperCase line) ''F,''
      then \<lparr>student_id = new_id, student_name = trim (strip_commas (drop 2 line)),
            student_gender = F, payments = []\<rparr>
      else if startsWith (toUpperCase line) ''M '' \<or> startsWith (toUpperCase line) ''M,''
      then \<lparr>student_id = new_id, student_name = trim (strip_commas (drop 2 line)),
            student_gender = M, payments = []\<rparr>
      else \<lparr>student_id = new_id, student_name = line, student_gender = M, payments = []\<rparr>)"

definition import_lines :: "string \<Rightarrow> string list" where
  "import_lines txt = filter (\<lambda>n. length n > 0) (map trim (split_lines txt))"

text \<open>\<open>ids\<close> gives the id drawn for the line at each position.\<close>

definition newStudents :: "(nat \<Rightarrow> string) \<Rightarrow> string \<Rightarrow> student list" where
  "newStudents ids txt =
     map (\<lambda>(i, line). parse_line (ids i) line) (enumerate 0 (import_lines txt))"

definition importStudentsFromText ::
  "(nat \<Rightarrow> string) \<Rightarrow> string \<Rightarrow> database \<Rightarrow> nat \<times> database" where
  "importStudentsFromText ids txt dbase =
     (let currentStudents = getStudents dbase;
          new = newStudents ids txt
      in (length new, saveStudents (currentStudents @ new) dbase))"

section \<open>Example states and the order of first occurrence\<close>

text \<open>
  The scenario of the specification: quota 5, one active day, students A and B with no
  payments, a store that accepts every write.
\<close>

definition ex_settings :: app_settings where
  "ex_settings = \<lparr>dailyQuota = 5, customQuotas = [],
     collectionDays = [(''2024-01-08'', True)], currencySymbol = ''P''\<rparr>"

definition ex_A :: student where
  "ex_A = \<lparr>student_id = ''a'', student_name = ''A'', student_gender = M, payments = []\<rparr>"

definition ex_B :: student where
  "ex_B = \<lparr>student_id = ''b'', student_name = ''B'', student_gender = F, payments = []\<rparr>"

definition ex_db :: database where
  "ex_db = \<lparr>tbl_students = Some [ex_A, ex_B], tbl_transactions = None,
     tbl_planned_expenses = None, tbl_settings = Some ex_settings,
     accepts = (\<lambda>t. True)\<rparr>"

definition ex_funds :: funds where
  "ex_funds = \<lparr>students = [ex_A, ex_B], expenses = [], plannedExpenses = [],
     settings = ex_settings, selectedDate = ''2024-01-08'', modals_confirm = False,
     confirmAction = None, db = ex_db\<rparr>"

text \<open>The same with a part payment of 3 recorded for A.\<close>

definition ex_A3 :: student where
  "ex_A3 = ex_A\<lparr>payments := [(''2024-01-08'', 3)]\<rparr>"

definition ex_partial :: funds where
  "ex_partial = ex_funds\<lparr>students := [ex_A3, ex_B]\<rparr>"

text \<open>
  A ledger with an inactive day, a day with its own quota and a day in the future; the
  roster has a part payment, an empty ledger, a second part payment and a student who
  has paid everything.
\<close>

definition ex_settings2 :: app_settings where
  "ex_settings2 = \<lparr>dailyQuota = 5, customQuotas = [(''2024-01-09'', 8)],
     collectionDays = [(''2024-01-08'', True), (''2024-01-05'', False),
                       (''2024-01-09'', True), (''2024-01-20'', True)],
     currencySymbol = ''P''\<rparr>"

definition ex_C :: student where
  "ex_C = \<lparr>student_id = ''c'', student_name = ''C'', student_gender = M,
            payments = [(''2024-01-09'', 3)]\<rparr>"

definition ex_D :: student where
  "ex_D = \<lparr>student_id = ''d'', student_name = ''D'', student_gender = F,
            payments = [(''2024-01-08'', 5), (''2024-01-09'', 8)]\<rparr>"

definition ex_ledger :: funds where
  "ex_ledger = ex_funds\<lparr>students := [ex_A3, ex_B, ex_C, ex_D], settings := ex_settings2\<rparr>"

text \<open>
  Two clock readings in a zone eight hours ahead of UTC: noon of 10 January, and 07:30
  of 8 January, when the UTC date is still 7 January.
\<close>

definition ex_noon :: js_date where
  "ex_noon = \<lparr>toISOString = ''2024-01-10T04:00:00.000Z'',
              getFullYear = 2024, getMonth = 0, getDate = 10\<rparr>"

definition ex_early :: js_date where
  "ex_early = \<lparr>toISOString = ''2024-01-07T23:30:00.000Z'',
               getFullYear = 2024, getMonth = 0, getDate = 8\<rparr>"

text \<open>The scenario after every student was marked paid.\<close>

definition ex_paid :: funds where
  "ex_paid = onConfirm ''1'' ''t1'' (markAll True ex_funds)"

text \<open>
  The order of first occurrence, in the words of the specification: the elements of a
  list without repetitions, each at the place where it is first seen.
\<close>

definition first_occurrence_order :: "'a list \<Rightarrow> 'a list" where
  "first_occurrence_order xs = foldl (\<lambda>seen x. if x \<in> set seen then seen else seen @ [x]) [] xs"

text \<open>
  The expense scenario of the specification (20 for Materials, then 5 with an empty
  category), one with categories named after properties of \<^verbatim>\<open>Object.prototype\<close>, and
  one with a category whose name is a number.
\<close>

definition ex_tx_db :: database where
  "ex_tx_db = addExpense ''2'' ''t2'' 5 ''Tape'' ''''
                (addExpense ''1'' ''t1'' 20 ''Markers'' ''Materials'' ex_db)"

definition ex_tx_inherited :: "transaction list" where
  "ex_tx_inherited = getTransactions
     (addExpense ''4'' ''t4'' 2 ''Mop'' ''constructor''
       (addExpense ''3'' ''t3'' 1 ''Rice'' ''Food''
         (addExpense ''2'' ''t2'' 3 ''Pins'' ''__proto__''
           (addExpense ''1'' ''t1'' 5 ''Soap'' ''constructor'' ex_db))))"

definition ex_tx_index :: "transaction list" where
  "ex_tx_index = getTransactions
     (addExpense ''2'' ''t2'' 2 ''Bus'' ''7''
        (addExpense ''1'' ''t1'' 1 ''Rice'' ''Food'' ex_db))"

text \<open>
  Roster texts: the scenario of the specification (three names and a blank line), a text
  with mixed line endings, a lower-case marker and a line of spaces, and a single name
  with a comma.
\<close>

definition ex_text :: string where
  "ex_text = ''Alice'' @ [LF] @ ''F Beth'' @ [LF] @ ''M Carl'' @ [LF] @ [LF]"

definition ex_text2 :: string where
  "ex_text2 = ''  Cruz, Ana '' @ [CR, LF] @ ''f,  Reyes, Bea'' @ [LF] @ ''   '' @ [LF] @ ''M Tan''"

definition ex_text3 :: string where
  "ex_text3 = ''Agarao, Franco''"

text \<open>Two lines that begin with a lower-case letter and a separator.\<close>

definition ex_text4 :: string where
  "ex_text4 = ''f Beth''"

definition ex_text5 :: string where
  "ex_text5 = ''m, Dela Cruz, Jr.''"

text \<open>
  Two planned expenses, in a store that accepts every write and in a store that rejects
  writes to the transactions table.
\<close>

definition ex_wish :: planned_expense where
  "ex_wish = \<lparr>planned_id = ''w1'', item = ''Projector'', estimatedCost = 40,
               priority = High, planned_notes = None\<rparr>"

definition ex_wish2 :: planned_expense where
  "ex_wish2 = \<lparr>planned_id = ''w2'', item = ''Chalk'', estimatedCost = 3,
               priority = Low, planned_notes = None\<rparr>"

definition ex_wish_funds :: funds where
  "ex_wish_funds = ex_funds\<lparr>plannedExpenses := [ex_wish, ex_wish2],
     db := ex_db\<lparr>tbl_planned_expenses := Some [ex_wish, ex_wish2]\<rparr>\<rparr>"

definition ex_wish_full :: funds where
  "ex_wish_full = ex_funds\<lparr>plannedExpenses := [ex_wish, ex_wish2],
     db := ex_db\<lparr>tbl_planned_expenses := Some [ex_wish, ex_wish2],
                 accepts := (\<lambda>t. t \<noteq> TRANSACTIONS)\<rparr>\<rparr>"

text \<open>Two planned expenses created in the same millisecond share their id.\<close>

definition ex_wish_twin :: funds where
  "ex_wish_twin = ex_funds\<lparr>plannedExpenses := [ex_wish, ex_wish2\<lparr>planned_id := ''w1''\<rparr>],
     db := ex_db\<lparr>tbl_planned_expenses := Some [ex_wish, ex_wish2\<lparr>planned_id := ''w1''\<rparr>]\<rparr>\<rparr>"

section \<open>Basic facts about the JavaScript model\<close>

lemma obj_get_obj_set:
  "obj_get (obj_set obj k v) k' = (if k' = k then Some v else obj_get obj k')"
  by (induction obj) (auto simp: obj_get_def)

lemma mset_Object_entries: "mset (Object_entries obj) = mset obj"
  by (simp add: Object_entries_def)

lemma set_Object_keys: "set (Object_keys obj) = fst ` set obj"
proof -
  have "set (Object_entries obj) = set obj"
    using mset_Object_entries [of obj] by (metis set_mset_mset)
  then show ?thesis by (simp add: Object_keys_def)
qed

lemma distinct_Object_keys:
  assumes "distinct (map fst obj)"
  shows "distinct (Object_keys obj)"
proof -
  have "mset (map fst (Object_entries obj)) = mset (map fst obj)"
    using mset_Object_entries [of obj] by (metis mset_map)
  then show ?thesis
    using assms unfolding Object_keys_def by (metis mset_eq_imp_distinct_iff)
qed

lemma sum_list_Object_values:
  "sum_list (Object_values obj) = sum_list (map snd (obj :: number js_object))"
proof -
  have "mset (map snd (Object_entries obj)) = mset (map snd obj)"
    using mset_Object_entries [of obj] by (metis mset_map)
  then show ?thesis
    unfolding Object_values_def by (metis sum_mset_sum_list)
qed

lemma mset_js_insert: "mset (js_insert cmp x ys) = add_mset x (mset ys)"
  by (induction ys) auto

lemma mset_js_sort: "mset (js_sort cmp xs) = mset xs"
  by (induction xs) (auto simp: js_sort_def mset_js_insert)

lemma set_js_insert: "set (js_insert cmp x ys) = insert x (set ys)"
  by (induction ys) auto

text \<open>Sorting with the comparator \<^verbatim>\<open>(a, b) => b.debt - a.debt\<close>.\<close>

lemma sorted_js_insert:
  "sorted_wrt (\<lambda>a b. debt b \<le> debt a) ys \<Longrightarrow>
   sorted_wrt (\<lambda>a b. debt b \<le> debt a) (js_insert (\<lambda>a b. debt b - debt a) x ys)"
  by (induction ys) (auto simp: set_js_insert)

lemma sorted_js_sort:
  "sorted_wrt (\<lambda>a b. debt b \<le> debt a) (js_sort (\<lambda>a b. debt b - debt a) xs)"
  by (induction xs) (auto simp: js_sort_def sorted_js_insert)

lemma filter_js_insert:
  "sorted_wrt (\<lambda>a b. debt b \<le> debt a) ys \<Longrightarrow>
   filter (\<lambda>d. debt d = v) (js_insert (\<lambda>a b. debt b - debt a) x ys) =
     (if debt x = v then x # filter (\<lambda>d. debt d = v) ys else filter (\<lambda>d. debt d = v) ys)"
  by (induction ys) auto

lemma filter_js_sort:
  "filter (\<lambda>d. debt d = v) (js_sort (\<lambda>a b. debt b - debt a) xs) = filter (\<lambda>d. debt d = v) xs"
proof (induction xs)
  case Nil
  show ?case by (simp add: js_sort_def)
next
  case (Cons x xs)
  have "js_sort (\<lambda>a b. debt b - debt a) (x # xs)
          = js_insert (\<lambda>a b. debt b - debt a) x (js_sort (\<lambda>a b. debt b - debt a) xs)"
    by (simp add: js_sort_def)
  then show ?case
    using Cons.IH filter_js_insert [OF sorted_js_sort, of v x xs] by simp
qed

section \<open>Debt\<close>

lemma paid_owe_foldl:
  "foldl (\<lambda>(paid, owe) date.
              (let q = (case obj_get (customQuotas s) date of
                          None \<Rightarrow> dailyQuota s | Some c \<Rightarrow> c);
                   p = or_zero (obj_get (payments stu) date)
               in (paid + p, owe + q)))
           (a, b) dates
   = (a + sum_list (map (\<lambda>d. or_zero (obj_get (payments stu) d)) dates),
      b + sum_list (map (\<lambda>d. case obj_get (customQuotas s) d of
                          None \<Rightarrow> dailyQuota s | Some c \<Rightarrow> c) dates))"
  by (induction dates arbitrary: a b) (auto simp: Let_def)

lemma paid_owe_sums:
  "paid_owe s dates stu =
     (sum_list (map (\<lambda>d. or_zero (obj_get (payments stu) d)) dates),
      sum_list (map (\<lambda>d. case obj_get (customQuotas s) d of
                          None \<Rightarrow> dailyQuota s | Some c \<Rightarrow> c) dates))"
  using paid_owe_foldl [of s stu 0 0 dates] by (simp add: paid_owe_def)

lemma set_activeDates:
  "set (activeDates today s) =
     {d. obj_get (collectionDays s) d = Some True \<and> str_le d today}"
  by (auto simp: activeDates_def set_Object_keys obj_get_def dest: map_of_SomeD
      intro: rev_image_eqI)

lemma distinct_activeDates:
  "distinct (map fst (collectionDays s)) \<Longrightarrow> distinct (activeDates today s)"
  by (simp add: activeDates_def distinct_Object_keys)

lemma set_js_sort: "set (js_sort cmp xs) = set xs"
  by (metis mset_js_sort set_mset_mset)

lemma distinct_js_sort: "distinct (js_sort cmp xs) = distinct xs"
  by (metis mset_js_sort mset_eq_imp_distinct_iff)

lemma set_filter_enumerate:
  "set (map snd (filter (\<lambda>(i, d). Q i d) (enumerate 0 ks))) =
     {d. \<exists>i < length ks. ks ! i = d \<and> Q i d}"
proof (rule set_eqI, rule iffI)
  fix d
  assume "d \<in> set (map snd (filter (\<lambda>(i, d). Q i d) (enumerate 0 ks)))"
  then obtain p where p: "p \<in> set (enumerate 0 ks)" "Q (fst p) (snd p)" "snd p = d"
    by (auto simp: case_prod_beta)
  from p(1) have "fst p < length ks" "ks ! fst p = snd p"
    by (simp_all add: in_set_enumerate_eq)
  with p show "d \<in> {d. \<exists>i < length ks. ks ! i = d \<and> Q i d}" by blast
next
  fix d
  assume "d \<in> {d. \<exists>i < length ks. ks ! i = d \<and> Q i d}"
  then obtain i where i: "i < length ks" "ks ! i = d" "Q i d" by blast
  then have "(i, d) \<in> set (enumerate 0 ks)" by (simp add: in_set_enumerate_eq)
  with i(3) have "(i, d) \<in> set (filter (\<lambda>(i, d). Q i d) (enumerate 0 ks))" by simp
  then show "d \<in> set (map snd (filter (\<lambda>(i, d). Q i d) (enumerate 0 ks)))"
    by (metis image_eqI set_map snd_conv)
qed

lemma set_activeCollectionDates:
  "set (activeCollectionDates clock s) =
     {d. \<exists>i < length (Object_keys (collectionDays s)).
           Object_keys (collectionDays s) ! i = d
           \<and> (obj_get (collectionDays s) d = Some True
                \<and> str_le d (utc_day (clock i)))}"
  unfolding activeCollectionDates_def set_js_sort by (rule set_filter_enumerate)

lemma distinct_activeCollectionDates:
  assumes "distinct (map fst (collectionDays s))"
  shows "distinct (activeCollectionDates clock s)"
proof -
  have "distinct (map snd (enumerate 0 (Object_keys (collectionDays s))))"
    using distinct_Object_keys [OF assms] by simp
  then show ?thesis
    unfolding activeCollectionDates_def distinct_js_sort by (rule distinct_map_filter)
qed

lemma agreeing_clock_set:
  assumes "\<forall>i. utc_day (clock i) = u"
  shows "{d. \<exists>i < length (Object_keys (collectionDays s)).
           Object_keys (collectionDays s) ! i = d
           \<and> obj_get (collectionDays s) d = Some True
           \<and> str_le d (utc_day (clock i))}
       = {d. obj_get (collectionDays s) d = Some True \<and> str_le d u}"
proof -
  have "\<exists>i < length (Object_keys (collectionDays s)). Object_keys (collectionDays s) ! i = d"
    if "obj_get (collectionDays s) d = Some True" for d
  proof -
    have "d \<in> set (Object_keys (collectionDays s))"
      using that by (auto simp: set_Object_keys obj_get_def dest: map_of_SomeD
          intro: rev_image_eqI)
    then show ?thesis by (simp add: in_set_conv_nth)
  qed
  then show ?thesis using assms by (simp only: set_eq_iff mem_Collect_eq) blast
qed

lemma student_debt_sum:
  assumes d: "distinct dates"
    and act: "\<forall>d \<in> set dates. obj_get (collectionDays s) d = Some True"
  shows "student_debt s dates stu =
     max 0 ((\<Sum>d \<in> set dates. getQuotaForDate s d)
            - (\<Sum>d \<in> set dates. or_zero (obj_get (payments stu) d)))"
proof -
  have q: "(\<Sum>d \<in> set dates. getQuotaForDate s d) =
        sum_list (map (\<lambda>d. case obj_get (customQuotas s) d of
                          None \<Rightarrow> dailyQuota s | Some c \<Rightarrow> c) dates)"
    using act by (simp add: sum_list_distinct_conv_sum_set [OF d] getQuotaForDate_def
        isCollectionActive_def)
  have p: "(\<Sum>d \<in> set dates. or_zero (obj_get (payments stu) d)) =
        sum_list (map (\<lambda>d. or_zero (obj_get (payments stu) d)) dates)"
    by (simp add: sum_list_distinct_conv_sum_set [OF d])
  show ?thesis
    by (simp add: student_debt_def paid_owe_sums q p)
qed

lemma debtors_entry:
  "e \<in> set (compute_debtors s dates studs) \<Longrightarrow>
   fst e \<in> set studs \<and> debt e = student_debt s dates (fst e)"
proof -
  assume "e \<in> set (compute_debtors s dates studs)"
  then have "e \<in> set (filter (\<lambda>d. debt d > 0)
               (map (\<lambda>stu. (stu, student_debt s dates stu)) studs))"
    unfolding compute_debtors_def using mset_js_sort by (metis set_mset_mset)
  then show ?thesis by (auto simp: debt_def)
qed

text \<open>
  Claim C1, as stated, fails in the first variant of the component, where the date a
  key is compared with is the UTC date of \<^verbatim>\<open>toISOString\<close> and is read while the
  memoised list is built. At 07:30 on 8 January in a zone eight hours ahead of UTC the
  local date is 2024-01-08 and the UTC date 2024-01-07: with quota 5, the day
  2024-01-08 active and nothing paid, the debt over the dates up to the local date is
  5, and the component computes 0 and lists no debtor.
\<close>

theorem debt_utc_counterexample:
  "toLocalISO ex_early = ''2024-01-08''
   \<and> max 0 ((\<Sum>d \<in> {d. obj_get (collectionDays ex_settings) d = Some True
                          \<and> str_le d (toLocalISO ex_early)}. getQuotaForDate ex_settings d)
            - (\<Sum>d \<in> {d. obj_get (collectionDays ex_settings) d = Some True
                          \<and> str_le d (toLocalISO ex_early)}.
                 or_zero (obj_get (payments ex_A) d))) = 5
   \<and> student_debt ex_settings (activeCollectionDates (\<lambda>i. ex_early) ex_settings) ex_A = 0
   \<and> debtors (financials_memo (\<lambda>i. ex_early) ex_funds) = []"
proof -
  have l: "toLocalISO ex_early = ''2024-01-08''"
    by code_simp
  have u: "utc_day ex_early = ''2024-01-07''"
    by (simp add: utc_day_def ex_early_def)
  have A: "{d. obj_get (collectionDays ex_settings) d = Some True
               \<and> str_le d ''2024-01-08''} = {''2024-01-08''}"
    by (auto simp: ex_settings_def obj_get_def split: if_splits)
  have c: "max 0 ((\<Sum>d \<in> {''2024-01-08''}. getQuotaForDate ex_settings d)
            - (\<Sum>d \<in> {''2024-01-08''}. or_zero (obj_get (payments ex_A) d))) = 5"
    by (simp add: getQuotaForDate_def isCollectionActive_def ex_settings_def ex_A_def
        obj_get_def or_zero_def)
  have k: "Object_keys (collectionDays ex_settings) = [''2024-01-08'']"
    by (simp add: ex_settings_def Object_keys_def Object_entries_def is_array_index_def
        is_digit_def)
  have e: "activeCollectionDates (\<lambda>i. ex_early) ex_settings = []"
    by (simp add: activeCollectionDates_def k u js_sort_def)
  have z: "student_debt ex_settings [] x = 0" for x
    by (simp add: student_debt_def paid_owe_def)
  have f: "debtors (financials_memo (\<lambda>i. ex_early) ex_funds) = []"
    by (simp add: financials_memo_def compute_financials_def compute_debtors_def Let_def
        ex_funds_def e z js_sort_def debt_def)
  show ?thesis
    by (simp only: l A c e z f)
qed

text \<open>
  Claim C1, amended. For every student the computed debt is \<open>max 0 (owed - paid)\<close>,
  where \<open>owed\<close> is the sum of the effective quota and \<open>paid\<close> the sum of the recorded
  payment (0 when absent) over the dates the pass counts, the same dates for every
  student; the debt is never negative, and every entry of the debtor listing carries
  this debt of its student. In the second variant the dates are the active-date set
  \<open>A\<close>: the dates \<open>d\<close> with \<open>collectionDays[d] === true\<close> and \<open>d <= today\<close>, for
  \<open>today\<close> the local calendar date of the one clock reading of the pass. In the first
  variant they are the set \<open>B\<close> of the memoised list: the keys \<open>d\<close> with
  \<open>collectionDays[d] === true\<close> that are not after the UTC date read for \<open>d\<close> when the
  list was built; when those readings all give the date \<open>u\<close>, these are the dates with
  \<open>collectionDays[d] === true\<close> and \<open>d <= u\<close>. The keys of the \<open>collectionDays\<close>
  object are distinct, as the keys of an object are.
\<close>

theorem debt_formula:
  assumes wf: "distinct (map fst (collectionDays (settings st)))"
    and A: "A = {d. obj_get (collectionDays (settings st)) d = Some True
                    \<and> str_le d (toLocalISO now)}"
    and B: "B = {d. \<exists>i < length (Object_keys (collectionDays (settings st))).
                    Object_keys (collectionDays (settings st)) ! i = d
                    \<and> obj_get (collectionDays (settings st)) d = Some True
                    \<and> str_le d (utc_day (memo_clock i))}"
  shows "student_debt (settings st) (activeDates (toLocalISO now) (settings st)) stu =
           max 0 ((\<Sum>d \<in> A. getQuotaForDate (settings st) d)
                  - (\<Sum>d \<in> A. or_zero (obj_get (payments stu) d)))
       \<and> student_debt (settings st) (activeCollectionDates memo_clock (settings st)) stu =
           max 0 ((\<Sum>d \<in> B. getQuotaForDate (settings st) d)
                  - (\<Sum>d \<in> B. or_zero (obj_get (payments stu) d)))
       \<and> ((\<forall>i. utc_day (memo_clock i) = u) \<longrightarrow>
             B = {d. obj_get (collectionDays (settings st)) d = Some True \<and> str_le d u})
       \<and> 0 \<le> student_debt (settings st) (activeDates (toLocalISO now) (settings st)) stu
       \<and> 0 \<le> student_debt (settings st) (activeCollectionDates memo_clock (settings st)) stu
       \<and> (\<forall>e \<in> set (debtors (financials_today now st)).
             fst e \<in> set (students st)
             \<and> debt e = max 0 ((\<Sum>d \<in> A. getQuotaForDate (settings st) d)
                               - (\<Sum>d \<in> A. or_zero (obj_get (payments (fst e)) d))))
       \<and> (\<forall>e \<in> set (debtors (financials_memo memo_clock st)).
             fst e \<in> set (students st)
             \<and> debt e = max 0 ((\<Sum>d \<in> B. getQuotaForDate (settings st) d)
                               - (\<Sum>d \<in> B. or_zero (obj_get (payments (fst e)) d))))"
proof -
  let ?s = "settings st"
  let ?today = "toLocalISO now"
  have d1: "distinct (activeDates ?today ?s)" by (rule distinct_activeDates [OF wf])
  have s1: "set (activeDates ?today ?s) = A" by (simp add: set_activeDates A)
  have d2: "distinct (activeCollectionDates memo_clock ?s)"
    by (rule distinct_activeCollectionDates [OF wf])
  have s2: "set (activeCollectionDates memo_clock ?s) = B"
    by (simp only: set_activeCollectionDates B)
  have a1: "\<forall>d \<in> set (activeDates ?today ?s). obj_get (collectionDays ?s) d = Some True"
    by (simp add: s1 A)
  have a2: "\<forall>d \<in> set (activeCollectionDates memo_clock ?s).
              obj_get (collectionDays ?s) d = Some True"
    unfolding s2 B by blast
  have f1: "student_debt ?s (activeDates ?today ?s) x =
           max 0 ((\<Sum>d \<in> A. getQuotaForDate ?s d)
                  - (\<Sum>d \<in> A. or_zero (obj_get (payments x) d)))" for x
    using student_debt_sum [OF d1 a1, of x] by (simp add: s1)
  have f2: "student_debt ?s (activeCollectionDates memo_clock ?s) x =
           max 0 ((\<Sum>d \<in> B. getQuotaForDate ?s d)
                  - (\<Sum>d \<in> B. or_zero (obj_get (payments x) d)))" for x
    using student_debt_sum [OF d2 a2, of x] by (simp only: s2)
  have ag: "B = {d. obj_get (collectionDays ?s) d = Some True \<and> str_le d u}"
    if "\<forall>i. utc_day (memo_clock i) = u"
    unfolding B by (rule agreeing_clock_set [OF that])
  have g1: "\<forall>e \<in> set (debtors (financials_today now st)).
             fst e \<in> set (students st)
             \<and> debt e = max 0 ((\<Sum>d \<in> A. getQuotaForDate ?s d)
                               - (\<Sum>d \<in> A. or_zero (obj_get (payments (fst e)) d)))"
    using debtors_entry [of _ ?s "activeDates ?today ?s" "students st"]
    by (simp add: financials_today_def compute_financials_def Let_def f1)
  have g2: "\<forall>e \<in> set (debtors (financials_memo memo_clock st)).
             fst e \<in> set (students st)
             \<and> debt e = max 0 ((\<Sum>d \<in> B. getQuotaForDate ?s d)
                               - (\<Sum>d \<in> B. or_zero (obj_get (payments (fst e)) d)))"
    using debtors_entry [of _ ?s "activeCollectionDates memo_clock ?s" "students st"]
    by (simp add: financials_memo_def compute_financials_def Let_def f2)
  have n1: "0 \<le> student_debt ?s (activeDates ?today ?s) stu"
    and n2: "0 \<le> student_debt ?s (activeCollectionDates memo_clock ?s) stu"
    by (simp_all add: f1 f2)
  show ?thesis
    using f1 [of stu] f2 [of stu] ag n1 n2 g1 g2 by blast
qed

lemma ex_noon: "toLocalISO ex_noon = ''2024-01-10''" "utc_day ex_noon = ''2024-01-10''"
  by code_simp+

lemma ex_keys: "Object_keys (collectionDays ex_settings2) = [''2024-01-08'', ''2024-01-05'', ''2024-01-09'', ''2024-01-20'']"
  by (simp add: ex_settings2_def Object_keys_def Object_entries_def is_array_index_def is_digit_def)

lemma ex_ad: "activeDates ''2024-01-10'' ex_settings2 = [''2024-01-08'', ''2024-01-09'']"
  by (simp add: activeDates_def ex_keys) (simp add: ex_settings2_def obj_get_def)

lemma ex_acd:
  "activeCollectionDates (\<lambda>i. ex_noon) ex_settings2 = [''2024-01-08'', ''2024-01-09'']"
  by (simp add: activeCollectionDates_def ex_keys ex_noon(2) js_sort_def default_compare_def)
     (simp add: ex_settings2_def obj_get_def)

theorem debt_formula_witness:
  "distinct (map fst (collectionDays (settings ex_ledger)))
   \<and> student_debt (settings ex_ledger) (activeDates (toLocalISO ex_noon) (settings ex_ledger)) ex_A3 = 10
   \<and> student_debt (settings ex_ledger)
        (activeCollectionDates (\<lambda>i. ex_noon) (settings ex_ledger)) ex_B = 13"
proof -
  have h: "distinct (map fst (collectionDays (settings ex_ledger)))"
    by (simp add: ex_ledger_def ex_settings2_def)
  have s: "settings ex_ledger = ex_settings2" by (simp add: ex_ledger_def)
  have "student_debt ex_settings2 [''2024-01-08'', ''2024-01-09''] ex_A3 = 10"
    by (simp add: student_debt_def paid_owe_def ex_settings2_def ex_A3_def ex_A_def obj_get_def or_zero_def)
  moreover have "student_debt ex_settings2 [''2024-01-08'', ''2024-01-09''] ex_B = 13"
    by (simp add: student_debt_def paid_owe_def ex_settings2_def ex_B_def obj_get_def or_zero_def)
  ultimately show ?thesis
    using h debt_formula [OF h refl refl, of ex_noon ex_A3 "\<lambda>i. ex_noon"]
    by (simp add: s ex_ad ex_acd ex_noon)
qed

section \<open>Inactive dates\<close>

text \<open>
  Claim C4. For a date \<open>d\<close> that is not marked active (absent from \<open>collectionDays\<close> or
  explicitly false) the effective quota is 0, and with \<open>d\<close> selected \<open>togglePayment\<close>
  for any student id and \<open>markAll\<close> for either flag return the state as it was:
  students, store, pending action and dialog flag are all unchanged, so no payment entry
  is created.
\<close>

theorem inactive_date_noop:
  assumes "obj_get (collectionDays (settings st)) d \<noteq> Some True"
    and "selectedDate st = d"
  shows "getQuotaForDate (settings st) d = 0
         \<and> togglePayment sid st = st
         \<and> markAll paid st = st"
  using assms
  by (simp add: getQuotaForDate_def togglePayment_def markAll_def isCollectionActive_def)

theorem inactive_date_noop_witness:
  "obj_get (collectionDays (settings (ex_funds\<lparr>selectedDate := ''2024-01-09''\<rparr>)))
     ''2024-01-09'' \<noteq> Some True
   \<and> getQuotaForDate (settings (ex_funds\<lparr>selectedDate := ''2024-01-09''\<rparr>)) ''2024-01-09'' = 0
   \<and> togglePayment ''a'' (ex_funds\<lparr>selectedDate := ''2024-01-09''\<rparr>)
       = ex_funds\<lparr>selectedDate := ''2024-01-09''\<rparr>
   \<and> markAll True (ex_funds\<lparr>selectedDate := ''2024-01-09''\<rparr>)
       = ex_funds\<lparr>selectedDate := ''2024-01-09''\<rparr>"
proof -
  have h: "obj_get (collectionDays (settings (ex_funds\<lparr>selectedDate := ''2024-01-09''\<rparr>)))
     ''2024-01-09'' \<noteq> Some True"
    by (simp add: ex_funds_def ex_settings_def obj_get_def)
  show ?thesis
    using h inactive_date_noop [OF h, of "''a''" True] by simp
qed

section \<open>Toggling a payment\<close>

lemma find_distinct_id:
  "distinct (map student_id xs) \<Longrightarrow> s \<in> set xs \<Longrightarrow>
   find (\<lambda>x. student_id x = student_id s) xs = Some s"
  by (induction xs) (auto simp: rev_image_eqI)

lemma togglePayment_step:
  assumes act: "isCollectionActive (settings st) (selectedDate st)"
    and dist: "distinct (map student_id (students st))"
    and i: "i < length (students st)"
  shows "students (togglePayment (student_id (students st ! i)) st) ! i =
           (students st ! i)\<lparr>payments := obj_set (payments (students st ! i)) (selectedDate st)
              (if or_zero (obj_get (payments (students st ! i)) (selectedDate st))
                    \<ge> getQuotaForDate (settings st) (selectedDate st)
               then 0 else getQuotaForDate (settings st) (selectedDate st))\<rparr>"
    and "map student_id (students (togglePayment (student_id (students st ! i)) st))
           = map student_id (students st)"
    and "settings (togglePayment (student_id (students st ! i)) st) = settings st"
    and "selectedDate (togglePayment (student_id (students st ! i)) st) = selectedDate st"
proof -
  let ?s = "students st ! i"
  have mem: "?s \<in> set (students st)" using i by simp
  have f: "find (\<lambda>x. student_id x = student_id ?s) (students st) = Some ?s"
    by (rule find_distinct_id [OF dist mem])
  show "students (togglePayment (student_id ?s) st) ! i =
           ?s\<lparr>payments := obj_set (payments ?s) (selectedDate st)
              (if or_zero (obj_get (payments ?s) (selectedDate st))
                    \<ge> getQuotaForDate (settings st) (selectedDate st)
               then 0 else getQuotaForDate (settings st) (selectedDate st))\<rparr>"
    using act i by (simp add: togglePayment_def f updateStudentPayment_def Let_def)
  show "map student_id (students (togglePayment (student_id ?s) st))
           = map student_id (students st)"
    using act by (simp add: togglePayment_def f updateStudentPayment_def Let_def)
  show "settings (togglePayment (student_id ?s) st) = settings st"
    using act by (simp add: togglePayment_def f updateStudentPayment_def Let_def)
  show "selectedDate (togglePayment (student_id ?s) st) = selectedDate st"
    using act by (simp add: togglePayment_def f updateStudentPayment_def Let_def)
qed

text \<open>
  Claim C3, as stated, fails for a part payment: with quota 5 on the active day and 3
  recorded for student A, the first toggle records 5 and the second records 0, not 3.
\<close>

theorem togglePayment_partial_counterexample:
  "isCollectionActive (settings ex_partial) (selectedDate ex_partial)
   \<and> selectedDate ex_partial = ''2024-01-08''
   \<and> getQuotaForDate (settings ex_partial) ''2024-01-08'' = 5
   \<and> map (\<lambda>s. obj_get (payments s) ''2024-01-08'') (students ex_partial) = [Some 3, None]
   \<and> map (\<lambda>s. obj_get (payments s) ''2024-01-08'')
        (students (togglePayment ''a'' ex_partial)) = [Some 5, None]
   \<and> map (\<lambda>s. obj_get (payments s) ''2024-01-08'')
        (students (togglePayment ''a'' (togglePayment ''a'' ex_partial))) = [Some 0, None]"
  by (simp add: ex_partial_def ex_funds_def ex_settings_def ex_A3_def ex_A_def ex_B_def
      ex_db_def togglePayment_def updateStudentPayment_def isCollectionActive_def
      getQuotaForDate_def obj_get_def or_zero_def Let_def)

text \<open>
  Claim C3, amended. On an active date, for a student of a roster with distinct ids whose
  recorded amount for the date (read as 0 when absent) is \<open>c\<close>, and with effective quota
  \<open>q\<close>, two applications of \<open>togglePayment\<close> leave the amount \<open>q\<close> when \<open>0 < q \<le> c\<close>
  and 0 otherwise. So the amount returns to its original value exactly when \<open>c = 0\<close>, or
  \<open>c = q\<close> and \<open>q\<close> is positive; a part payment strictly between 0 and the quota ends
  at 0.
\<close>

theorem togglePayment_twice:
  assumes act: "isCollectionActive (settings st) (selectedDate st)"
    and dist: "distinct (map student_id (students st))"
    and i: "i < length (students st)"
    and c: "c = or_zero (obj_get (payments (students st ! i)) (selectedDate st))"
    and q: "q = getQuotaForDate (settings st) (selectedDate st)"
    and st2: "st2 = togglePayment (student_id (students st ! i))
                      (togglePayment (student_id (students st ! i)) st)"
  shows "or_zero (obj_get (payments (students st2 ! i)) (selectedDate st))
           = (if 0 < q \<and> q \<le> c then q else 0)
         \<and> (or_zero (obj_get (payments (students st2 ! i)) (selectedDate st)) = c
              \<longleftrightarrow> c = 0 \<or> (c = q \<and> 0 < q))"
proof -
  let ?sid = "student_id (students st ! i)"
  let ?st1 = "togglePayment ?sid st"
  note s1 = togglePayment_step [OF act dist i]
  have act1: "isCollectionActive (settings ?st1) (selectedDate ?st1)"
    using act s1(3,4) by simp
  have dist1: "distinct (map student_id (students ?st1))"
    using dist s1(2) by simp
  have i1: "i < length (students ?st1)"
    using i s1(2) by (metis length_map)
  have sid1: "student_id (students ?st1 ! i) = ?sid"
    using s1(1) by simp
  note s2 = togglePayment_step [OF act1 dist1 i1]
  have "or_zero (obj_get (payments (students st2 ! i)) (selectedDate st))
           = (if 0 < q \<and> q \<le> c then q else 0)"
    using s2(1) s1(1) s1(3) s1(4) unfolding st2 sid1 c q
    by (simp add: obj_get_obj_set or_zero_def)
  then show ?thesis by auto
qed

theorem togglePayment_twice_witness:
  "isCollectionActive (settings ex_funds) (selectedDate ex_funds)
   \<and> distinct (map student_id (students ex_funds))
   \<and> 0 < length (students ex_funds)
   \<and> or_zero (obj_get (payments (students ex_funds ! 0)) (selectedDate ex_funds)) = 0
   \<and> or_zero (obj_get (payments (students (togglePayment (student_id (students ex_funds ! 0))
        (togglePayment (student_id (students ex_funds ! 0)) ex_funds)) ! 0)) (selectedDate ex_funds)) = 0"
proof -
  have act: "isCollectionActive (settings ex_funds) (selectedDate ex_funds)"
    by (simp add: ex_funds_def ex_settings_def isCollectionActive_def obj_get_def)
  have dist: "distinct (map student_id (students ex_funds))"
    by (simp add: ex_funds_def ex_A_def ex_B_def)
  have i: "0 < length (students ex_funds)"
    by (simp add: ex_funds_def)
  have c: "or_zero (obj_get (payments (students ex_funds ! 0)) (selectedDate ex_funds)) = 0"
    by (simp add: ex_funds_def ex_A_def obj_get_def or_zero_def)
  show ?thesis
    using act dist i c togglePayment_twice [OF act dist i refl refl refl]
    by simp
qed

section \<open>Marking the whole roster\<close>




section \<open>Income\<close>

lemma foldl_plus: "foldl (\<lambda>t a. t + a) (acc :: int) vals = acc + sum_list vals"
  by (induction vals arbitrary: acc) auto

lemma compute_totalIncome_foldl:
  "foldl (\<lambda>total s. foldl (\<lambda>t a. t + a) total (Object_values (payments s))) acc studs
     = acc + sum_list (map (\<lambda>s. sum_list (map snd (payments s))) studs)"
  by (induction studs arbitrary: acc) (auto simp: foldl_plus sum_list_Object_values)

lemma compute_totalIncome_sum:
  "compute_totalIncome studs = sum_list (map (\<lambda>s. sum_list (map snd (payments s))) studs)"
  by (simp add: compute_totalIncome_def compute_totalIncome_foldl)

text \<open>
  Claim C2. In both variants the total income is the sum, over the students of the
  roster, of every entry of the student's payment map; the settings take no part in it.
  Turning a collection day off (or any other change of the settings) leaves it as it
  was.
\<close>

theorem income_all_payments:
  "totalIncome (financials_today now st)
      = (\<Sum>s \<leftarrow> students st. \<Sum>entry \<leftarrow> payments s. snd entry)
   \<and> totalIncome (financials_memo memo_clock st)
      = (\<Sum>s \<leftarrow> students st. \<Sum>entry \<leftarrow> payments s. snd entry)
   \<and> totalIncome (financials_today now (toggleCollectionDay st))
      = totalIncome (financials_today now st)
   \<and> totalIncome (financials_memo memo_clock (toggleCollectionDay st))
      = totalIncome (financials_memo memo_clock st)
   \<and> totalIncome (financials_today now (st\<lparr>settings := any_settings\<rparr>))
      = totalIncome (financials_today now st)"
  by (simp add: financials_today_def financials_memo_def compute_financials_def Let_def
      compute_totalIncome_sum toggleCollectionDay_def)

theorem income_all_payments_witness:
  "totalIncome (financials_today ex_noon ex_paid) = 10
   \<and> isCollectionActive (settings ex_paid) ''2024-01-08''
   \<and> \<not> isCollectionActive (settings (toggleCollectionDay ex_paid)) ''2024-01-08''
   \<and> totalIncome (financials_today ex_noon (toggleCollectionDay ex_paid)) = 10"
proof -
  have p: "students ex_paid = [ex_A\<lparr>payments := [(''2024-01-08'', 5)]\<rparr>,
                               ex_B\<lparr>payments := [(''2024-01-08'', 5)]\<rparr>]"
    by (simp add: ex_paid_def ex_funds_def ex_settings_def ex_A_def ex_B_def
        ex_db_def markAll_def onConfirm_def isCollectionActive_def obj_get_def
        getQuotaForDate_def Let_def)
  have s: "settings ex_paid = ex_settings" "selectedDate ex_paid = ''2024-01-08''"
    by (simp_all add: ex_paid_def ex_funds_def ex_settings_def 
        markAll_def onConfirm_def isCollectionActive_def obj_get_def Let_def)
  have a: "isCollectionActive (settings ex_paid) ''2024-01-08''"
    by (simp add: s ex_settings_def isCollectionActive_def obj_get_def)
  have b: "\<not> isCollectionActive (settings (toggleCollectionDay ex_paid)) ''2024-01-08''"
    by (simp add: toggleCollectionDay_def s Let_def) (simp add: ex_settings_def isCollectionActive_def obj_get_def)
  show ?thesis
    using a b income_all_payments [of ex_noon ex_paid]
    by (simp add: p ex_A_def ex_B_def)
qed

section \<open>The debtor listing\<close>

text \<open>
  Claim C5. In either variant, with \<open>dates\<close> the dates the variant counts: the students
  of the debtor listing are exactly the students of the roster whose computed debt is
  greater than 0 (with multiplicity), each entry carries the computed debt of its
  student, the listing is in descending order of debt, and for every debt value the
  entries with that debt are the students with that debt in roster order (the sort is
  stable).
\<close>

theorem debtors_listing:
  assumes v: "(fin = financials_today now st
               \<and> dates = activeDates (toLocalISO now) (settings st))
            \<or> (fin = financials_memo memo_clock st
               \<and> dates = activeCollectionDates memo_clock (settings st))"
  shows "mset (map fst (debtors fin))
           = mset (filter (\<lambda>stu. student_debt (settings st) dates stu > 0) (students st))
       \<and> (\<forall>e \<in> set (debtors fin). debt e = student_debt (settings st) dates (fst e))
       \<and> sorted_wrt (\<lambda>a b. debt a \<ge> debt b) (debtors fin)
       \<and> (\<forall>v. map fst (filter (\<lambda>e. debt e = v) (debtors fin))
               = filter (\<lambda>stu. student_debt (settings st) dates stu = v \<and> 0 < v) (students st))"
proof -
  let ?D = "student_debt (settings st) dates"
  let ?cand = "filter (\<lambda>d. debt d > 0) (map (\<lambda>stu. (stu, ?D stu)) (students st))"
  have ds: "debtors fin = js_sort (\<lambda>a b. debt b - debt a) ?cand"
    using v by (auto simp: financials_today_def financials_memo_def compute_financials_def
        compute_debtors_def Let_def)
  have cand: "?cand = map (\<lambda>stu. (stu, ?D stu)) (filter (\<lambda>stu. ?D stu > 0) (students st))"
    by (simp add: filter_map comp_def debt_def)
  have m: "mset (debtors fin) = mset ?cand"
    by (simp add: ds mset_js_sort)
  have "mset (map fst (debtors fin)) = mset (map fst ?cand)"
    using m by (metis mset_map)
  then have c1: "mset (map fst (debtors fin)) = mset (filter (\<lambda>stu. ?D stu > 0) (students st))"
    by (simp add: cand comp_def)
  have "set (debtors fin) = set ?cand"
    using m by (metis set_mset_mset)
  then have c2: "\<forall>e \<in> set (debtors fin). debt e = ?D (fst e)"
    by (auto simp: debt_def)
  have c3: "sorted_wrt (\<lambda>a b. debt a \<ge> debt b) (debtors fin)"
    by (simp add: ds sorted_js_sort)
  have c4: "map fst (filter (\<lambda>e. debt e = v) (debtors fin))
               = filter (\<lambda>stu. ?D stu = v \<and> 0 < v) (students st)" for v
  proof -
    have "filter (\<lambda>e. debt e = v) (debtors fin) = filter (\<lambda>e. debt e = v) ?cand"
      by (simp add: ds filter_js_sort)
    also have "\<dots> = map (\<lambda>stu. (stu, ?D stu)) (filter (\<lambda>stu. ?D stu = v \<and> 0 < v) (students st))"
    proof -
      have "(\<lambda>x. 0 < ?D x \<and> ?D x = v) = (\<lambda>stu. ?D stu = v \<and> 0 < v)" by auto
      then show ?thesis by (simp add: filter_map comp_def debt_def)
    qed
    finally show ?thesis by (simp add: comp_def)
  qed
  show ?thesis using c1 c2 c3 c4 by blast
qed

theorem debtors_listing_witness:
  "map (\<lambda>e. (student_id (fst e), debt e)) (debtors (financials_today ex_noon ex_ledger))
     = [(''b'', 13), (''a'', 10), (''c'', 10)]
   \<and> map (\<lambda>s. (student_id s, student_debt (settings ex_ledger)
                  (activeDates (toLocalISO ex_noon) (settings ex_ledger)) s)) (students ex_ledger)
     = [(''a'', 10), (''b'', 13), (''c'', 10), (''d'', 0)]"
proof -
  have s: "settings ex_ledger = ex_settings2" 
    and r: "students ex_ledger = [ex_A3, ex_B, ex_C, ex_D]" by (simp_all add: ex_ledger_def)
  have d: "student_debt ex_settings2 [''2024-01-08'', ''2024-01-09''] ex_A3 = 10"
     "student_debt ex_settings2 [''2024-01-08'', ''2024-01-09''] ex_B = 13"
     "student_debt ex_settings2 [''2024-01-08'', ''2024-01-09''] ex_C = 10"
     "student_debt ex_settings2 [''2024-01-08'', ''2024-01-09''] ex_D = 0"
    by (simp_all add: student_debt_def paid_owe_def ex_settings2_def ex_A3_def ex_A_def ex_B_def
        ex_C_def ex_D_def obj_get_def or_zero_def)
  have ids: "student_id ex_A3 = ''a''" "student_id ex_B = ''b''" "student_id ex_C = ''c''"
    "student_id ex_D = ''d''"
    by (simp_all add: ex_A3_def ex_A_def ex_B_def ex_C_def ex_D_def)
  have l: "debtors (financials_today ex_noon ex_ledger) = [(ex_B, 13), (ex_A3, 10), (ex_C, 10)]"
    by (simp add: financials_today_def compute_financials_def compute_debtors_def Let_def
        s r ex_noon ex_ad d js_sort_def debt_def)
  show ?thesis
    using debtors_listing [of "financials_today ex_noon ex_ledger" ex_noon
        ex_ledger "activeDates (toLocalISO ex_noon) (settings ex_ledger)"]
    by (simp add: l s r ex_noon ex_ad d ids debt_def)
qed

section \<open>Category breakdown\<close>

lemma map_fst_obj_set:
  "map fst (obj_set obj k v) = (if k \<in> set (map fst obj) then map fst obj else map fst obj @ [k])"
  by (induction obj) auto

lemma map_fst_add_to_cats:
  "map fst (add_to_cats cats e) =
     (if category_or_other e = ''__proto__'' \<or> category_or_other e \<in> set (map fst cats)
      then map fst cats else map fst cats @ [category_or_other e])"
  by (simp add: add_to_cats_def prop_set_def map_fst_obj_set)

lemma keys_foldl_add_to_cats:
  "map fst (foldl add_to_cats acc es)
     = foldl (\<lambda>seen x. if x \<in> set seen then seen else seen @ [x]) (map fst acc)
         (filter (\<lambda>k. k \<noteq> ''__proto__'') (map category_or_other es))"
  by (induction es arbitrary: acc) (simp_all add: map_fst_add_to_cats)

lemma keys_compute_cats:
  "map fst (compute_cats es)
     = first_occurrence_order (filter (\<lambda>k. k \<noteq> ''__proto__'') (map category_or_other es))"
  by (simp add: compute_cats_def first_occurrence_order_def keys_foldl_add_to_cats)

lemma obj_get_None_iff: "obj_get obj k = None \<longleftrightarrow> k \<notin> set (map fst obj)"
  by (simp add: obj_get_def map_of_eq_None_iff)

lemma obj_get_add_to_cats:
  "obj_get (add_to_cats cats e) k =
     (if category_or_other e = k \<and> k \<noteq> ''__proto__''
      then Some (or_zero_plus (prop_get cats k) (amount e))
      else obj_get cats k)"
  by (auto simp: add_to_cats_def prop_set_def obj_get_obj_set)

text \<open>A key that names no property of the prototype collects the sum of its amounts.\<close>

lemma sum_from_Num:
  assumes "k \<notin> set Object_prototype_names"
  shows "obj_get acc k = Some (Num n) \<Longrightarrow>
         obj_get (foldl add_to_cats acc es) k
           = Some (Num (n + sum_list (map amount (filter (\<lambda>e. category_or_other e = k) es))))"
proof (induction es arbitrary: acc n)
  case Nil
  then show ?case by simp
next
  case (Cons e es)
  show ?case
  proof (cases "category_or_other e = k")
    case True
    have "obj_get (add_to_cats acc e) k = Some (Num (n + amount e))"
      using True assms Cons.prems
      by (simp add: obj_get_add_to_cats prop_get_def Object_prototype_names_def)
    from Cons.IH [OF this] show ?thesis using True by (simp add: add.assoc)
  next
    case False
    have "obj_get (add_to_cats acc e) k = Some (Num n)"
      using False Cons.prems by (simp add: obj_get_add_to_cats)
    from Cons.IH [OF this] show ?thesis using False by simp
  qed
qed

lemma sum_from_absent:
  assumes "k \<notin> set Object_prototype_names"
  shows "obj_get acc k = None \<Longrightarrow>
         obj_get (foldl add_to_cats acc es) k
           = (if k \<in> set (map category_or_other es)
              then Some (Num (sum_list (map amount (filter (\<lambda>e. category_or_other e = k) es))))
              else None)"
proof (induction es arbitrary: acc)
  case Nil
  then show ?case by simp
next
  case (Cons e es)
  show ?case
  proof (cases "category_or_other e = k")
    case True
    have "obj_get (add_to_cats acc e) k = Some (Num (amount e))"
      using True assms Cons.prems
      by (simp add: obj_get_add_to_cats prop_get_def Object_prototype_names_def)
    from sum_from_Num [OF assms this, of es] show ?thesis using True by simp
  next
    case False
    have "obj_get (add_to_cats acc e) k = None"
      using False Cons.prems by (simp add: obj_get_add_to_cats)
    from Cons.IH [OF this] show ?thesis using False by simp
  qed
qed

lemma set_first_occurrence_aux:
  "set (foldl (\<lambda>seen x. if x \<in> set seen then seen else seen @ [x]) acc xs) = set acc \<union> set xs"
  by (induction xs arbitrary: acc) auto

lemma distinct_first_occurrence_aux:
  "distinct acc \<Longrightarrow> distinct (foldl (\<lambda>seen x. if x \<in> set seen then seen else seen @ [x]) acc xs)"
  by (induction xs arbitrary: acc) auto

lemma set_first_occurrence_order: "set (first_occurrence_order xs) = set xs"
  by (simp add: first_occurrence_order_def set_first_occurrence_aux)

lemma distinct_first_occurrence_order: "distinct (first_occurrence_order xs)"
  by (simp add: first_occurrence_order_def distinct_first_occurrence_aux)

lemma map_insort_key: "map f (insort_key (\<lambda>p. g (f p)) x xs) = insort_key g (f x) (map f xs)"
  by (induction xs) auto

lemma map_sort_key: "map f (sort_key (\<lambda>p. g (f p)) xs) = sort_key g (map f xs)"
  by (induction xs) (auto simp: map_insort_key)

lemma Object_keys_order:
  "Object_keys obj = sort_key decimal_value (filter is_array_index (map fst obj))
                     @ filter (\<lambda>k. \<not> is_array_index k) (map fst obj)"
  by (simp add: Object_keys_def Object_entries_def map_sort_key filter_map comp_def)

lemma prop_get_cats_sum:
  assumes "k \<in> set (map category_or_other es)"
    and "k \<notin> set Object_prototype_names"
  shows "prop_get (compute_cats es) k
           = Num (sum_list (map amount (filter (\<lambda>e. category_or_other e = k) es)))"
proof -
  have "obj_get ([] :: js_value js_object) k = None" by (simp add: obj_get_def)
  from sum_from_absent [OF assms(2) this, of es] show ?thesis
    using assms(1) by (simp add: compute_cats_def prop_get_def)
qed

text \<open>
  Claim C9, as stated, fails on the order of the groups when a category name is an array
  index: after an expense of 1 in category \<open>Food\<close> and one of 2 in category \<open>7\<close>, the
  order of first occurrence is Food, 7, but the breakdown lists 7 first, because
  \<^verbatim>\<open>Object.keys\<close> enumerates integer-like keys before the other keys.
\<close>

theorem category_order_counterexample:
  "map category ex_tx_index = [Some ''Food'', Some ''7'']
   \<and> first_occurrence_order (map category_or_other ex_tx_index) = [''Food'', ''7'']
   \<and> compute_pieData ex_tx_index = [(''7'', Num 2), (''Food'', Num 1)]"
  by (simp add: ex_tx_index_def ex_db_def addExpense_def getTransactions_def saveTransactions_def
        compute_pieData_def compute_cats_def add_to_cats_def category_or_other_def
        prop_get_def prop_set_def Object_prototype_functions_def
        Object_keys_def Object_entries_def is_array_index_def is_digit_def obj_get_def
        Let_def first_occurrence_order_def decimal_value_def)

text \<open>
  Claim C9, amended. When no category is the name of a property of
  \<^verbatim>\<open>Object.prototype\<close>, the breakdown has one group for each category string of the
  transactions, a missing or empty category counting as \<open>Other\<close>; the value of a group
  is the sum of the amounts of its transactions. The groups whose name is not an array
  index come in the order of first occurrence; the groups whose name is an array index
  (the canonical decimal form of an integer below 2^32 - 1) come before them, in
  ascending numeric order. When no category name is an array index the order is the
  order of first occurrence. An expense of 20 in category Materials followed by one of 5
  with the empty category gives Materials: 20, Other: 5, in that order.
\<close>

theorem category_breakdown:
  assumes K: "K = first_occurrence_order (map category_or_other es)"
    and own: "\<forall>e \<in> set es. category_or_other e \<notin> set Object_prototype_names"
  shows "map fst (compute_pieData es)
           = sort_key decimal_value (filter is_array_index K)
             @ filter (\<lambda>k. \<not> is_array_index k) K
       \<and> ((\<forall>e \<in> set es. \<not> is_array_index (category_or_other e))
            \<longrightarrow> map fst (compute_pieData es) = K)
       \<and> (\<forall>g \<in> set (compute_pieData es).
            snd g = Num (sum_list (map amount (filter (\<lambda>e. category_or_other e = fst g) es))))
       \<and> set (map fst (compute_pieData es)) = set (map category_or_other es)
       \<and> distinct (map fst (compute_pieData es))
       \<and> compute_pieData (getTransactions ex_tx_db) = [(''Materials'', Num 20), (''Other'', Num 5)]"
proof -
  have names: "map fst (compute_pieData es) = Object_keys (compute_cats es)"
    by (simp add: compute_pieData_def Let_def comp_def)
  have "\<forall>e \<in> set es. category_or_other e \<noteq> ''__proto__''"
    using own by (simp add: Object_prototype_names_def)
  then have "\<forall>k \<in> set (map category_or_other es). k \<noteq> ''__proto__''"
    by simp
  then have "filter (\<lambda>k. k \<noteq> ''__proto__'') (map category_or_other es)
               = map category_or_other es"
    by (rule filter_True)
  then have keys: "map fst (compute_cats es) = K"
    by (simp only: keys_compute_cats K)
  have c1: "map fst (compute_pieData es)
           = sort_key decimal_value (filter is_array_index K)
             @ filter (\<lambda>k. \<not> is_array_index k) K"
    by (simp only: names Object_keys_order keys)
  have setK: "set K = set (map category_or_other es)"
    by (simp only: K set_first_occurrence_order)
  have c2: "map fst (compute_pieData es) = K"
    if "\<forall>e \<in> set es. \<not> is_array_index (category_or_other e)"
  proof -
    have "\<forall>k \<in> set K. \<not> is_array_index k" using that setK by auto
    then have "filter is_array_index K = []" "filter (\<lambda>k. \<not> is_array_index k) K = K"
      by (simp_all add: filter_empty_conv)
    then show ?thesis by (simp add: c1)
  qed
  have c4: "set (map fst (compute_pieData es)) = set (map category_or_other es)"
    unfolding c1 using setK by auto
  have c3: "\<forall>g \<in> set (compute_pieData es).
            snd g = Num (sum_list (map amount (filter (\<lambda>e. category_or_other e = fst g) es)))"
  proof
    fix g assume g: "g \<in> set (compute_pieData es)"
    then have "fst g \<in> set (map fst (compute_pieData es))" by simp
    then have mem: "fst g \<in> set (map category_or_other es)" by (simp only: c4)
    then have np: "fst g \<notin> set Object_prototype_names" using own by auto
    have "snd g = prop_get (compute_cats es) (fst g)"
      using g by (auto simp: compute_pieData_def Let_def)
    then show "snd g = Num (sum_list (map amount (filter (\<lambda>e. category_or_other e = fst g) es)))"
      by (simp only: prop_get_cats_sum [OF mem np])
  qed
  have dK: "distinct K" by (simp only: K distinct_first_occurrence_order)
  have c5: "distinct (map fst (compute_pieData es))"
    unfolding c1 using dK by (auto simp: distinct_filter)
  have c6: "compute_pieData (getTransactions ex_tx_db) = [(''Materials'', Num 20), (''Other'', Num 5)]"
    by (simp add: ex_tx_db_def ex_db_def addExpense_def getTransactions_def saveTransactions_def
        compute_pieData_def compute_cats_def add_to_cats_def category_or_other_def
        prop_get_def prop_set_def Object_prototype_functions_def
        Object_keys_def Object_entries_def is_array_index_def is_digit_def obj_get_def
        Let_def)
  show ?thesis using c1 c2 c3 c4 c5 c6 by blast
qed

theorem category_breakdown_witness:
  "first_occurrence_order (map category_or_other ex_tx_index) = [''Food'', ''7'']
   \<and> list_all (\<lambda>e. category_or_other e \<notin> set Object_prototype_names) ex_tx_index
   \<and> map fst (compute_pieData ex_tx_index) = [''7'', ''Food'']
   \<and> map snd (compute_pieData ex_tx_index) = [Num 2, Num 1]"
proof -
  have K: "first_occurrence_order (map category_or_other ex_tx_index) = [''Food'', ''7'']"
    by (simp add: ex_tx_index_def ex_db_def addExpense_def getTransactions_def
        saveTransactions_def category_or_other_def first_occurrence_order_def Let_def)
  have o: "list_all (\<lambda>e. category_or_other e \<notin> set Object_prototype_names) ex_tx_index"
    by (simp add: ex_tx_index_def ex_db_def addExpense_def getTransactions_def
        saveTransactions_def category_or_other_def Object_prototype_names_def
        Object_prototype_functions_def Let_def)
  then have own: "\<forall>e \<in> set ex_tx_index. category_or_other e \<notin> set Object_prototype_names"
    by (simp add: list_all_iff)
  have i: "is_array_index ''7''" "\<not> is_array_index ''Food''"
    by (simp_all add: is_array_index_def is_digit_def decimal_value_def)
  have v: "map snd (compute_pieData ex_tx_index) = [Num 2, Num 1]"
    by (simp add: ex_tx_index_def ex_db_def addExpense_def getTransactions_def saveTransactions_def
        compute_pieData_def compute_cats_def add_to_cats_def category_or_other_def
        prop_get_def prop_set_def Object_prototype_functions_def
        Object_keys_def Object_entries_def is_array_index_def is_digit_def obj_get_def
        Let_def decimal_value_def)
  show ?thesis
    using category_breakdown [OF K [symmetric] own] v o by (simp add: K i)
qed

text \<open>
  A category named after a property of \<^verbatim>\<open>Object.prototype\<close> is outside the amended
  claim: \<open>__proto__\<close> makes no group, and the value of the group \<open>constructor\<close> is the
  text of the inherited function followed by the amounts 5 and 2, not their sum.
\<close>

lemma category_inherited_name_example:
  "map category_or_other ex_tx_inherited = [''constructor'', ''__proto__'', ''Food'', ''constructor'']
   \<and> compute_pieData ex_tx_inherited
       = [(''constructor'', Text (FunctionSource ''constructor'') [5, 2]), (''Food'', Num 1)]"
  by (simp add: ex_tx_inherited_def ex_db_def addExpense_def getTransactions_def
        saveTransactions_def compute_pieData_def compute_cats_def add_to_cats_def
        category_or_other_def prop_get_def prop_set_def Object_prototype_functions_def
        Object_keys_def Object_entries_def is_array_index_def is_digit_def obj_get_def
        Let_def)

section \<open>Roster import\<close>

lemma split_aux_no_LF:
  "l \<in> set (split_aux cur inp) \<Longrightarrow> LF \<notin> set cur \<Longrightarrow> LF \<notin> set l"
proof (induction inp arbitrary: cur)
  case Nil
  then show ?case by simp
next
  case (Cons c cs)
  show ?case
  proof (cases "c = LF")
    case True
    then have "l = rev (case cur of [] \<Rightarrow> [] | r # rest \<Rightarrow> if r = CR then rest else cur)
               \<or> l \<in> set (split_aux [] cs)"
      using Cons.prems(1) by simp
    then show ?thesis
    proof
      assume "l = rev (case cur of [] \<Rightarrow> [] | r # rest \<Rightarrow> if r = CR then rest else cur)"
      then show ?thesis using Cons.prems(2) by (auto split: list.splits if_splits)
    next
      assume "l \<in> set (split_aux [] cs)"
      then show ?thesis using Cons.IH [of "[]"] by simp
    qed
  next
    case False
    then have "l \<in> set (split_aux (c # cur) cs)" using Cons.prems(1) by simp
    then show ?thesis using Cons.IH [of "c # cur"] Cons.prems(2) False by simp
  qed
qed

lemma split_lines_no_LF: "l \<in> set (split_lines inp) \<Longrightarrow> LF \<notin> set l"
  unfolding split_lines_def using split_aux_no_LF [of l "[]" inp] by simp

lemma length_split_aux: "length (split_aux cur inp) = Suc (count_list inp LF)"
  by (induction inp arbitrary: cur) auto

lemma last_dropWhile: "dropWhile P xs \<noteq> [] \<Longrightarrow> last (dropWhile P xs) = last xs"
  by (induction xs) (auto split: if_splits)

lemma trim_ends:
  assumes "trim s \<noteq> []"
  shows "\<not> is_space (hd (trim s)) \<and> \<not> is_space (last (trim s))"
proof -
  let ?y = "dropWhile is_space s"
  let ?z = "dropWhile is_space (rev ?y)"
  have z: "?z \<noteq> []" using assms by (simp add: trim_def)
  have y: "?y \<noteq> []"
  proof
    assume "?y = []"
    then have "?z = []" by (simp only: rev.simps(1) dropWhile.simps(1))
    then show False using z by (simp only:)
  qed
  have "last (trim s) = hd ?z" using z by (simp add: trim_def last_rev)
  moreover have "\<not> is_space (hd ?z)" using z by (rule hd_dropWhile)
  moreover have "hd (trim s) = last ?z" using z by (simp add: trim_def hd_rev)
  moreover have "last ?z = last (rev ?y)" using z by (rule last_dropWhile)
  moreover have "last (rev ?y) = hd ?y" using y by (simp add: last_rev)
  moreover have "\<not> is_space (hd ?y)" using y by (rule hd_dropWhile)
  ultimately show ?thesis by simp
qed

lemma import_lines_trimmed:
  "\<forall>l \<in> set (import_lines inp). l \<noteq> [] \<and> \<not> is_space (hd l) \<and> \<not> is_space (last l)"
  by (auto simp: import_lines_def trim_ends)

lemma set_trim: "set (trim s) \<subseteq> set s"
proof -
  have "set (trim s) \<subseteq> set (dropWhile is_space s)"
    unfolding trim_def by (metis set_dropWhileD set_rev subsetI)
  then show ?thesis by (meson set_dropWhileD subsetD subsetI)
qed

lemma name_no_comma: "CHR '','' \<notin> set (trim (strip_commas s))"
  using set_trim [of "strip_commas s"] by (auto simp: strip_commas_def)

lemma startsWith_upper:
  "startsWith l p \<Longrightarrow> toUpperCase p = p \<Longrightarrow> startsWith (toUpperCase l) p"
  by (metis startsWith_def toUpperCase_def take_map length_map)

lemma marker_exclusive:
  "startsWith x ''M '' \<or> startsWith x ''M,'' \<Longrightarrow>
   \<not> startsWith x ''F '' \<and> \<not> startsWith x ''F,''"
  by (auto simp: startsWith_def)

lemma upper_markers:
  "toUpperCase ''F '' = ''F ''" "toUpperCase ''F,'' = ''F,''"
  "toUpperCase ''M '' = ''M ''" "toUpperCase ''M,'' = ''M,''"
  by (simp_all add: toUpperCase_def upper_char_def)

lemma newStudents_nth:
  "i < length (import_lines inp) \<Longrightarrow>
   newStudents ids inp ! i = parse_line (ids i) (import_lines inp ! i)"
  by (simp add: newStudents_def nth_enumerate_eq)

lemma length_newStudents: "length (newStudents ids inp) = length (import_lines inp)"
  by (simp add: newStudents_def)

lemma ex_text_lines: "import_lines ex_text = [''Alice'', ''F Beth'', ''M Carl'']"
  by (simp add: ex_text_def import_lines_def split_lines_def LF_def CR_def trim_def is_space_def)

lemma ex_text_students:
  "newStudents ids ex_text =
    [\<lparr>student_id = ids 0, student_name = ''Alice'', student_gender = M, payments = []\<rparr>,
     \<lparr>student_id = ids 1, student_name = ''Beth'', student_gender = F, payments = []\<rparr>,
     \<lparr>student_id = ids 2, student_name = ''Carl'', student_gender = M, payments = []\<rparr>]"
  by (simp add: newStudents_def ex_text_lines parse_line_def startsWith_def toUpperCase_def
      upper_char_def char_of_def bit_0 strip_commas_def trim_def is_space_def
      numeral_2_eq_2 [symmetric])

lemma ex_text2_lines: "import_lines ex_text2 = [''Cruz, Ana'', ''f,  Reyes, Bea'', ''M Tan'']"
  by (simp add: ex_text2_def import_lines_def split_lines_def LF_def CR_def trim_def is_space_def)

lemma ex_text2_students:
  "newStudents ids ex_text2 =
    [\<lparr>student_id = ids 0, student_name = ''Cruz, Ana'', student_gender = M, payments = []\<rparr>,
     \<lparr>student_id = ids 1, student_name = ''Reyes Bea'', student_gender = F, payments = []\<rparr>,
     \<lparr>student_id = ids 2, student_name = ''Tan'', student_gender = M, payments = []\<rparr>]"
  by (simp add: newStudents_def ex_text2_lines parse_line_def startsWith_def toUpperCase_def
      upper_char_def char_of_def bit_0 strip_commas_def trim_def is_space_def
      numeral_2_eq_2 [symmetric])

lemma upper_char_iff:
  "upper_char c = t \<longleftrightarrow>
     (if 97 \<le> (of_char c :: nat) \<and> (of_char c :: nat) \<le> 122
      then (of_char c :: nat) = of_char t + 32 else c = t)"
proof (cases "97 \<le> (of_char c :: nat) \<and> (of_char c :: nat) \<le> 122")
  case True
  have "(of_char c :: nat) - 32 < 256"
    using nat_of_char_less_256 [of c] by linarith
  then have "take_bit 8 ((of_char c :: nat) - 32) = of_char c - 32"
    by (simp add: take_bit_eq_mod)
  then have "char_of ((of_char c :: nat) - 32) = t \<longleftrightarrow> (of_char c :: nat) - 32 = of_char t"
    by (simp add: char_of_eq_iff)
  then show ?thesis using True by (auto simp: upper_char_def)
next
  case False
  then have "upper_char c = c" by (auto simp: upper_char_def)
  then show ?thesis using False by auto
qed

lemma code_eq_char: "(of_char c :: nat) = of_char t \<longleftrightarrow> c = t"
  by simp

lemma upper_char_F: "upper_char c = CHR ''F'' \<longleftrightarrow> c = CHR ''F'' \<or> c = CHR ''f''"
proof -
  have "(of_char c :: nat) = 102 \<longleftrightarrow> c = CHR ''f''"
    using code_eq_char [of c "CHR ''f''"] by simp
  moreover have "c = CHR ''F'' \<Longrightarrow> \<not> (97 \<le> (of_char c :: nat))" by simp
  ultimately show ?thesis by (auto simp: upper_char_iff)
qed

lemma upper_char_M: "upper_char c = CHR ''M'' \<longleftrightarrow> c = CHR ''M'' \<or> c = CHR ''m''"
proof -
  have "(of_char c :: nat) = 109 \<longleftrightarrow> c = CHR ''m''"
    using code_eq_char [of c "CHR ''m''"] by simp
  moreover have "c = CHR ''M'' \<Longrightarrow> \<not> (97 \<le> (of_char c :: nat))" by simp
  ultimately show ?thesis by (auto simp: upper_char_iff)
qed

lemma upper_char_space: "upper_char c = CHR '' '' \<longleftrightarrow> c = CHR '' ''"
  by (auto simp: upper_char_iff)

lemma upper_char_comma: "upper_char c = CHR '','' \<longleftrightarrow> c = CHR '',''"
  by (auto simp: upper_char_iff)

lemma startsWith_two:
  "startsWith l [a, b] \<longleftrightarrow> (\<exists>r. l = a # b # r)"
  by (cases l; cases "tl l") (auto simp: startsWith_def)

lemma startsWith_upper_two:
  "startsWith (toUpperCase l) [a, b] \<longleftrightarrow>
     (\<exists>x y r. l = x # y # r \<and> upper_char x = a \<and> upper_char y = b)"
  by (cases l; cases "tl l") (auto simp: startsWith_def toUpperCase_def)

lemma upper_marker_F_space:
  "startsWith (toUpperCase l) ''F '' \<longleftrightarrow> startsWith l ''F '' \<or> startsWith l ''f ''"
proof -
  have "startsWith (toUpperCase l) ''F '' \<longleftrightarrow>
          (\<exists>x y r. l = x # y # r \<and> upper_char x = CHR ''F'' \<and> upper_char y = CHR '' '')"
    by (rule startsWith_upper_two)
  also have "\<dots> \<longleftrightarrow> (\<exists>r. l = CHR ''F'' # CHR '' '' # r) \<or> (\<exists>r. l = CHR ''f'' # CHR '' '' # r)"
    by (auto simp: upper_char_F upper_char_space)
  also have "\<dots> \<longleftrightarrow> startsWith l ''F '' \<or> startsWith l ''f ''"
    by (simp only: startsWith_two)
  finally show ?thesis .
qed

lemma upper_marker_F_comma:
  "startsWith (toUpperCase l) ''F,'' \<longleftrightarrow> startsWith l ''F,'' \<or> startsWith l ''f,''"
proof -
  have "startsWith (toUpperCase l) ''F,'' \<longleftrightarrow>
          (\<exists>x y r. l = x # y # r \<and> upper_char x = CHR ''F'' \<and> upper_char y = CHR '','')"
    by (rule startsWith_upper_two)
  also have "\<dots> \<longleftrightarrow> (\<exists>r. l = CHR ''F'' # CHR '','' # r) \<or> (\<exists>r. l = CHR ''f'' # CHR '','' # r)"
    by (auto simp: upper_char_F upper_char_comma)
  also have "\<dots> \<longleftrightarrow> startsWith l ''F,'' \<or> startsWith l ''f,''"
    by (simp only: startsWith_two)
  finally show ?thesis .
qed

lemma upper_marker_M_space:
  "startsWith (toUpperCase l) ''M '' \<longleftrightarrow> startsWith l ''M '' \<or> startsWith l ''m ''"
proof -
  have "startsWith (toUpperCase l) ''M '' \<longleftrightarrow>
          (\<exists>x y r. l = x # y # r \<and> upper_char x = CHR ''M'' \<and> upper_char y = CHR '' '')"
    by (rule startsWith_upper_two)
  also have "\<dots> \<longleftrightarrow> (\<exists>r. l = CHR ''M'' # CHR '' '' # r) \<or> (\<exists>r. l = CHR ''m'' # CHR '' '' # r)"
    by (auto simp: upper_char_M upper_char_space)
  also have "\<dots> \<longleftrightarrow> startsWith l ''M '' \<or> startsWith l ''m ''"
    by (simp only: startsWith_two)
  finally show ?thesis .
qed

lemma upper_marker_M_comma:
  "startsWith (toUpperCase l) ''M,'' \<longleftrightarrow> startsWith l ''M,'' \<or> startsWith l ''m,''"
proof -
  have "startsWith (toUpperCase l) ''M,'' \<longleftrightarrow>
          (\<exists>x y r. l = x # y # r \<and> upper_char x = CHR ''M'' \<and> upper_char y = CHR '','')"
    by (rule startsWith_upper_two)
  also have "\<dots> \<longleftrightarrow> (\<exists>r. l = CHR ''M'' # CHR '','' # r) \<or> (\<exists>r. l = CHR ''m'' # CHR '','' # r)"
    by (auto simp: upper_char_M upper_char_comma)
  also have "\<dots> \<longleftrightarrow> startsWith l ''M,'' \<or> startsWith l ''m,''"
    by (simp only: startsWith_two)
  finally show ?thesis .
qed

text \<open>
  Claim C8, as stated, fails for a line that begins with a lower-case marker: the line
  \<open>f Beth\<close> has none of the prefixes \<open>F \<close>, \<open>F,\<close>, \<open>M \<close>, \<open>M,\<close>, yet the student
  made from it is female and named Beth, because the prefix is tested on the
  upper-cased line.
\<close>

theorem import_lower_case_counterexample:
  "import_lines ex_text4 = [''f Beth'']
   \<and> \<not> startsWith ''f Beth'' ''F '' \<and> \<not> startsWith ''f Beth'' ''F,''
   \<and> \<not> startsWith ''f Beth'' ''M '' \<and> \<not> startsWith ''f Beth'' ''M,''
   \<and> map (\<lambda>s. (student_name s, student_gender s)) (newStudents (\<lambda>i. ''id'') ex_text4)
       = [(''Beth'', F)]"
proof -
  have l: "import_lines ex_text4 = [''f Beth'']"
    by (simp add: ex_text4_def import_lines_def split_lines_def LF_def CR_def trim_def
        is_space_def)
  show ?thesis
    by (simp add: newStudents_def l parse_line_def startsWith_def toUpperCase_def
        upper_char_def char_of_def bit_0 strip_commas_def trim_def is_space_def)
qed

text \<open>
  Claim C8, amended. \<open>importStudentsFromText\<close> cuts the text at the line feeds (a line
  has no line feed, and there is one line more than line feeds), trims every line and
  keeps the non-empty ones, which then begin and end with a character that is not white
  space. It returns the number of students created, one for each kept line, and when
  the store accepts the write the roster is the old roster followed by them. Every new
  student has an empty payment map. The marker letter is matched in either case: the
  student is female exactly when the line begins with \<open>F \<close>, \<open>F,\<close>, \<open>f \<close> or
  \<open>f,\<close>; a line beginning with \<open>M \<close>, \<open>M,\<close>, \<open>m \<close> or \<open>m,\<close> gives a male student;
  a line with none of these eight prefixes gives a male student named by the whole
  line. On the text Alice, F Beth, M Carl and a blank line the count is 3 and the
  students are Alice (male), Beth (female) and Carl (male).
\<close>

theorem import_roster:
  assumes ls: "ls = import_lines inp"
    and new: "new = newStudents ids inp"
    and r: "r = importStudentsFromText ids inp dbase"
  shows "ls = filter (\<lambda>l. l \<noteq> []) (map trim (split_lines inp))
       \<and> length (split_lines inp) = Suc (count_list inp LF)
       \<and> (\<forall>l \<in> set (split_lines inp). LF \<notin> set l)
       \<and> (\<forall>l \<in> set ls. l \<noteq> [] \<and> \<not> is_space (hd l) \<and> \<not> is_space (last l))
       \<and> fst r = length new \<and> length new = length ls
       \<and> (accepts dbase STUDENTS \<longrightarrow>
            getStudents (snd r) = getStudents dbase @ new)
       \<and> (\<forall>i < length ls.
            payments (new ! i) = []
            \<and> (student_gender (new ! i) = F \<longleftrightarrow>
                 startsWith (ls ! i) ''F '' \<or> startsWith (ls ! i) ''F,''
                 \<or> startsWith (ls ! i) ''f '' \<or> startsWith (ls ! i) ''f,'')
            \<and> (startsWith (ls ! i) ''M '' \<or> startsWith (ls ! i) ''M,''
                 \<or> startsWith (ls ! i) ''m '' \<or> startsWith (ls ! i) ''m,''
                 \<longrightarrow> student_gender (new ! i) = M)
            \<and> (\<not> startsWith (ls ! i) ''F '' \<and> \<not> startsWith (ls ! i) ''F,''
                 \<and> \<not> startsWith (ls ! i) ''f '' \<and> \<not> startsWith (ls ! i) ''f,''
                 \<and> \<not> startsWith (ls ! i) ''M '' \<and> \<not> startsWith (ls ! i) ''M,''
                 \<and> \<not> startsWith (ls ! i) ''m '' \<and> \<not> startsWith (ls ! i) ''m,''
                 \<longrightarrow> student_gender (new ! i) = M \<and> student_name (new ! i) = ls ! i))
       \<and> fst (importStudentsFromText ids ex_text dbase) = 3
       \<and> newStudents ids ex_text =
          [\<lparr>student_id = ids 0, student_name = ''Alice'', student_gender = M, payments = []\<rparr>,
           \<lparr>student_id = ids 1, student_name = ''Beth'', student_gender = F, payments = []\<rparr>,
           \<lparr>student_id = ids 2, student_name = ''Carl'', student_gender = M, payments = []\<rparr>]"
proof -
  have c1: "ls = filter (\<lambda>l. l \<noteq> []) (map trim (split_lines inp))"
    by (simp add: ls import_lines_def)
  have c2: "length (split_lines inp) = Suc (count_list inp LF)"
    by (simp add: split_lines_def length_split_aux)
  have c3: "\<forall>l \<in> set (split_lines inp). LF \<notin> set l"
    using split_lines_no_LF by blast
  have c4: "\<forall>l \<in> set ls. l \<noteq> [] \<and> \<not> is_space (hd l) \<and> \<not> is_space (last l)"
    unfolding ls by (rule import_lines_trimmed)
  have c5: "fst r = length new" "length new = length ls"
    by (simp_all add: r new ls importStudentsFromText_def Let_def length_newStudents)
  have c6: "getStudents (snd r) = getStudents dbase @ new"
    if "accepts dbase STUDENTS"
    using that by (simp add: r new importStudentsFromText_def Let_def saveStudents_def
        getStudents_def)
  have c7: "payments (new ! i) = []
            \<and> (student_gender (new ! i) = F \<longleftrightarrow>
                 startsWith (ls ! i) ''F '' \<or> startsWith (ls ! i) ''F,''
                 \<or> startsWith (ls ! i) ''f '' \<or> startsWith (ls ! i) ''f,'')
            \<and> (startsWith (ls ! i) ''M '' \<or> startsWith (ls ! i) ''M,''
                 \<or> startsWith (ls ! i) ''m '' \<or> startsWith (ls ! i) ''m,''
                 \<longrightarrow> student_gender (new ! i) = M)
            \<and> (\<not> startsWith (ls ! i) ''F '' \<and> \<not> startsWith (ls ! i) ''F,''
                 \<and> \<not> startsWith (ls ! i) ''f '' \<and> \<not> startsWith (ls ! i) ''f,''
                 \<and> \<not> startsWith (ls ! i) ''M '' \<and> \<not> startsWith (ls ! i) ''M,''
                 \<and> \<not> startsWith (ls ! i) ''m '' \<and> \<not> startsWith (ls ! i) ''m,''
                 \<longrightarrow> student_gender (new ! i) = M \<and> student_name (new ! i) = ls ! i)"
    if i: "i < length ls" for i
  proof -
    have n: "new ! i = parse_line (ids i) (ls ! i)"
      using i unfolding new ls by (rule newStudents_nth)
    note u = upper_marker_F_space [of "ls ! i", symmetric]
      upper_marker_F_comma [of "ls ! i", symmetric]
      upper_marker_M_space [of "ls ! i", symmetric]
      upper_marker_M_comma [of "ls ! i", symmetric]
    show ?thesis
      unfolding n using u marker_exclusive [of "toUpperCase (ls ! i)"]
      by (auto simp: parse_line_def)
  qed
  have c8: "fst (importStudentsFromText ids ex_text dbase) = 3"
    by (simp add: importStudentsFromText_def Let_def ex_text_students)
  show ?thesis
    using c1 c2 c3 c4 c5 c6 c7 c8 ex_text_students [of ids] by blast
qed

theorem import_roster_witness:
  "import_lines ex_text2 = [''Cruz, Ana'', ''f,  Reyes, Bea'', ''M Tan'']
   \<and> fst (importStudentsFromText (\<lambda>i. ''id'') ex_text2 ex_db) = 3
   \<and> map student_gender (getStudents (snd (importStudentsFromText (\<lambda>i. ''id'') ex_text2 ex_db)))
       = [M, F, M, F, M]"
proof -
  have a: "accepts ex_db STUDENTS" by (simp add: ex_db_def)
  have g: "getStudents ex_db = [ex_A, ex_B]" by (simp add: getStudents_def ex_db_def)
  show ?thesis
    using import_roster [where inp = ex_text2 and ids = "\<lambda>i. ''id''"
        and dbase = ex_db, OF refl refl refl]
    by (simp add: a g ex_text2_lines ex_text2_students ex_A_def ex_B_def)
qed

text \<open>
  Claim C10, as stated, fails for a line that begins with a lower-case marker: the line
  \<open>m, Dela Cruz, Jr.\<close> has none of the prefixes \<open>F \<close>, \<open>F,\<close>, \<open>M \<close>, \<open>M,\<close>, yet its
  first two characters and its commas are removed.
\<close>

theorem import_lower_case_commas_counterexample:
  "import_lines ex_text5 = [''m, Dela Cruz, Jr.'']
   \<and> \<not> startsWith ''m, Dela Cruz, Jr.'' ''F '' \<and> \<not> startsWith ''m, Dela Cruz, Jr.'' ''F,''
   \<and> \<not> startsWith ''m, Dela Cruz, Jr.'' ''M '' \<and> \<not> startsWith ''m, Dela Cruz, Jr.'' ''M,''
   \<and> map student_name (newStudents (\<lambda>i. ''id'') ex_text5) = [''Dela Cruz Jr.'']"
proof -
  have l: "import_lines ex_text5 = [''m, Dela Cruz, Jr.'']"
    by (simp add: ex_text5_def import_lines_def split_lines_def LF_def CR_def trim_def
        is_space_def)
  show ?thesis
    by (simp add: newStudents_def l parse_line_def startsWith_def toUpperCase_def
        upper_char_def char_of_def bit_0 strip_commas_def trim_def is_space_def)
qed

text \<open>
  Claim C10, amended. For each kept line of the import, with the marker letter matched
  in either case: a line that begins with one of \<open>F \<close>, \<open>F,\<close>, \<open>M \<close>, \<open>M,\<close>, \<open>f \<close>,
  \<open>f,\<close>, \<open>m \<close>, \<open>m,\<close> is marked; the name of a marked line is the line without its
  first two characters, with every comma removed, trimmed, and holds no comma; the name
  of any other line is the line itself, with all its commas. The line
  \<open>Agarao, Franco\<close> gives a student of that name.
\<close>

theorem import_comma_stripping:
  assumes i: "i < length (import_lines inp)"
    and l: "l = import_lines inp ! i"
    and s: "s = newStudents ids inp ! i"
    and mk: "marked \<longleftrightarrow> startsWith l ''F '' \<or> startsWith l ''F,''
                      \<or> startsWith l ''M '' \<or> startsWith l ''M,''
                      \<or> startsWith l ''f '' \<or> startsWith l ''f,''
                      \<or> startsWith l ''m '' \<or> startsWith l ''m,''"
  shows "(marked \<longrightarrow> student_name s = trim (strip_commas (drop 2 l))
                      \<and> CHR '','' \<notin> set (student_name s))
       \<and> (\<not> marked \<longrightarrow> student_name s = l
                      \<and> count_list (student_name s) (CHR '','') = count_list l (CHR '',''))
       \<and> map student_name (newStudents ids ex_text3) = [''Agarao, Franco'']"
proof -
  have n: "s = parse_line (ids i) l"
    using i unfolding s l by (rule newStudents_nth)
  have m: "marked \<longleftrightarrow> startsWith (toUpperCase l) ''F '' \<or> startsWith (toUpperCase l) ''F,''
                      \<or> startsWith (toUpperCase l) ''M '' \<or> startsWith (toUpperCase l) ''M,''"
    unfolding mk upper_marker_F_space upper_marker_F_comma upper_marker_M_space
      upper_marker_M_comma by blast
  have c2: "student_name s = trim (strip_commas (drop 2 l)) \<and> CHR '','' \<notin> set (student_name s)"
    if marked
    using that unfolding n m by (auto simp: parse_line_def name_no_comma)
  have c3: "student_name s = l \<and> count_list (student_name s) (CHR '','') = count_list l (CHR '','')"
    if "\<not> marked"
    using that unfolding n m by (simp add: parse_line_def)
  have c4: "map student_name (newStudents ids ex_text3) = [''Agarao, Franco'']"
    by (simp add: ex_text3_def newStudents_def import_lines_def split_lines_def LF_def CR_def
        trim_def is_space_def parse_line_def startsWith_def toUpperCase_def
        upper_char_def char_of_def bit_0)
  show ?thesis using c2 c3 c4 by blast
qed

theorem import_comma_stripping_witness:
  "1 < length (import_lines ex_text2)
   \<and> import_lines ex_text2 ! 0 = ''Cruz, Ana''
   \<and> student_name (newStudents (\<lambda>i. ''id'') ex_text2 ! 0) = ''Cruz, Ana''
   \<and> import_lines ex_text2 ! 1 = ''f,  Reyes, Bea''
   \<and> startsWith (import_lines ex_text2 ! 1) ''f,''
   \<and> student_name (newStudents (\<lambda>i. ''id'') ex_text2 ! 1) = ''Reyes Bea''"
proof -
  have i: "1 < length (import_lines ex_text2)" by (simp add: ex_text2_lines)
  have u: "startsWith (import_lines ex_text2 ! 1) ''f,''"
    by (simp add: ex_text2_lines startsWith_def)
  show ?thesis
    using i u import_comma_stripping [OF i refl refl refl, of "\<lambda>i. ''id''"]
    by (simp add: ex_text2_lines ex_text2_students)
qed

section \<open>Converting a planned expense\<close>

lemma accepts_addExpense [simp]: "accepts (addExpense n t a d c dbase) = accepts dbase"
  by (simp add: addExpense_def saveTransactions_def Let_def)

lemma planned_addExpense [simp]:
  "getPlannedExpenses (addExpense n t a d c dbase) = getPlannedExpenses dbase"
  by (simp add: addExpense_def saveTransactions_def getPlannedExpenses_def Let_def)

lemma transactions_deletePlanned [simp]:
  "getTransactions (deletePlannedExpense pid dbase) = getTransactions dbase"
  by (simp add: deletePlannedExpense_def savePlannedExpenses_def getTransactions_def Let_def)

lemma transactions_addExpense:
  "getTransactions (addExpense n t a d c dbase) =
     (if accepts dbase TRANSACTIONS
      then getTransactions dbase @ [\<lparr>tx_id = n, amount = a, tx_date = t, description = d,
              tx_type = EXPENSE, category = Some c, status = Some PAID\<rparr>]
      else getTransactions dbase)"
  by (simp add: addExpense_def saveTransactions_def getTransactions_def Let_def)

lemma planned_deletePlanned:
  "getPlannedExpenses (deletePlannedExpense pid dbase) =
     (if accepts dbase PLANNED_EXPENSES
      then filter (\<lambda>p. planned_id p \<noteq> pid) (getPlannedExpenses dbase)
      else getPlannedExpenses dbase)"
  by (simp add: deletePlannedExpense_def savePlannedExpenses_def getPlannedExpenses_def Let_def)

lemma convert_confirm_db:
  "db (onConfirm n t (convertWishToExpense wish st))
     = deletePlannedExpense (planned_id wish)
         (addExpense n t (estimatedCost wish) (item wish) ''Materials'' (db st))"
  "expenses (onConfirm n t (convertWishToExpense wish st))
     = getTransactions (deletePlannedExpense (planned_id wish)
         (addExpense n t (estimatedCost wish) (item wish) ''Materials'' (db st)))"
  "plannedExpenses (onConfirm n t (convertWishToExpense wish st))
     = getPlannedExpenses (deletePlannedExpense (planned_id wish)
         (addExpense n t (estimatedCost wish) (item wish) ''Materials'' (db st)))"
  by (simp_all add: onConfirm_def convertWishToExpense_def refreshData_def Let_def)

lemma length_filter_split:
  "length (filter (\<lambda>p. f p \<noteq> k) xs) + length (filter (\<lambda>p. f p = k) xs) = length xs"
  by (induction xs) auto

text \<open>
  Claim C6, as stated, fails on its last part: when the store rejects the write of the
  transactions table, \<open>addExpense\<close> returns normally (the store catches the error), no
  expense is created, and \<open>deletePlannedExpense\<close> still removes the planned item.
\<close>

theorem convert_wish_failure_counterexample:
  "ex_wish \<in> set (getPlannedExpenses (db ex_wish_full))
   \<and> getTransactions (db ex_wish_full) = []
   \<and> getTransactions (db (onConfirm ''9'' ''t9'' (convertWishToExpense ex_wish ex_wish_full))) = []
   \<and> getPlannedExpenses (db (onConfirm ''9'' ''t9'' (convertWishToExpense ex_wish ex_wish_full)))
       = [ex_wish2]
   \<and> ex_wish \<notin> set (plannedExpenses (onConfirm ''9'' ''t9''
                        (convertWishToExpense ex_wish ex_wish_full)))"
proof -
  have a: "\<not> accepts (db ex_wish_full) TRANSACTIONS" "accepts (db ex_wish_full) PLANNED_EXPENSES"
    by (simp_all add: ex_wish_full_def ex_funds_def ex_db_def)
  have e: "getTransactions (db ex_wish_full) = []"
      "getPlannedExpenses (db ex_wish_full) = [ex_wish, ex_wish2]"
    by (simp_all add: ex_wish_full_def ex_funds_def ex_db_def getTransactions_def
        getPlannedExpenses_def)
  have i: "planned_id ex_wish2 \<noteq> planned_id ex_wish" "ex_wish \<noteq> ex_wish2"
    by (simp_all add: ex_wish_def ex_wish2_def)
  show ?thesis
    by (simp add: convert_confirm_db transactions_addExpense planned_deletePlanned a e i)
qed

text \<open>
  Claim C6, amended. For a planned expense that is the only item of the stored planned
  list with its id, the confirmed conversion runs \<open>addExpense\<close> and then
  \<open>deletePlannedExpense\<close> on the store and reloads the lists of the component from it.
  When the store accepts the writes of both tables, the expense list is the stored one
  with one new expense at the end, whose amount is the estimated cost, and the planned
  list is shorter by exactly 1 and no longer holds the item. When the store rejects the
  write of the transactions table and accepts the one of the planned table, the expense
  list is unchanged and the planned item is removed all the same.
\<close>

theorem convert_wish:
  assumes uniq: "filter (\<lambda>p. planned_id p = planned_id wish) (getPlannedExpenses (db st)) = [wish]"
    and st': "st' = onConfirm n t (convertWishToExpense wish st)"
  shows "db st' = deletePlannedExpense (planned_id wish)
                    (addExpense n t (estimatedCost wish) (item wish) ''Materials'' (db st))
       \<and> expenses st' = getTransactions (db st')
       \<and> plannedExpenses st' = getPlannedExpenses (db st')
       \<and> (accepts (db st) TRANSACTIONS \<and> accepts (db st) PLANNED_EXPENSES \<longrightarrow>
            length (expenses st') = length (getTransactions (db st)) + 1
            \<and> butlast (expenses st') = getTransactions (db st)
            \<and> amount (last (expenses st')) = estimatedCost wish
            \<and> length (plannedExpenses st') + 1 = length (getPlannedExpenses (db st))
            \<and> wish \<notin> set (plannedExpenses st'))
       \<and> (\<not> accepts (db st) TRANSACTIONS \<and> accepts (db st) PLANNED_EXPENSES \<longrightarrow>
            expenses st' = getTransactions (db st)
            \<and> wish \<notin> set (plannedExpenses st'))"
proof -
  have c: "db st' = deletePlannedExpense (planned_id wish)
                    (addExpense n t (estimatedCost wish) (item wish) ''Materials'' (db st))"
    "expenses st' = getTransactions (deletePlannedExpense (planned_id wish)
         (addExpense n t (estimatedCost wish) (item wish) ''Materials'' (db st)))"
    "plannedExpenses st' = getPlannedExpenses (deletePlannedExpense (planned_id wish)
         (addExpense n t (estimatedCost wish) (item wish) ''Materials'' (db st)))"
    unfolding st' by (simp_all only: convert_confirm_db)
  have r: "expenses st' = getTransactions (db st')"
    "plannedExpenses st' = getPlannedExpenses (db st')"
    by (simp_all only: c)
  have len: "length (filter (\<lambda>p. planned_id p \<noteq> planned_id wish) (getPlannedExpenses (db st))) + 1
             = length (getPlannedExpenses (db st))"
    using length_filter_split [of planned_id "planned_id wish" "getPlannedExpenses (db st)"]
    by (simp add: uniq)
  have ok: "length (expenses st') = length (getTransactions (db st)) + 1
            \<and> butlast (expenses st') = getTransactions (db st)
            \<and> amount (last (expenses st')) = estimatedCost wish
            \<and> length (plannedExpenses st') + 1 = length (getPlannedExpenses (db st))
            \<and> wish \<notin> set (plannedExpenses st')"
    if "accepts (db st) TRANSACTIONS \<and> accepts (db st) PLANNED_EXPENSES"
    using that len by (simp add: c transactions_addExpense planned_deletePlanned)
  have bad: "expenses st' = getTransactions (db st) \<and> wish \<notin> set (plannedExpenses st')"
    if "\<not> accepts (db st) TRANSACTIONS \<and> accepts (db st) PLANNED_EXPENSES"
    using that by (simp add: c transactions_addExpense planned_deletePlanned)
  show ?thesis using c(1) r ok bad by blast
qed

theorem convert_wish_witness:
  "filter (\<lambda>p. planned_id p = planned_id ex_wish) (getPlannedExpenses (db ex_wish_funds)) = [ex_wish]
   \<and> accepts (db ex_wish_funds) TRANSACTIONS \<and> accepts (db ex_wish_funds) PLANNED_EXPENSES
   \<and> expenses ex_wish_funds = []
   \<and> map amount (expenses (onConfirm ''9'' ''t9'' (convertWishToExpense ex_wish ex_wish_funds))) = [40]
   \<and> plannedExpenses (onConfirm ''9'' ''t9'' (convertWishToExpense ex_wish ex_wish_funds)) = [ex_wish2]"
proof -
  have u: "filter (\<lambda>p. planned_id p = planned_id ex_wish) (getPlannedExpenses (db ex_wish_funds)) = [ex_wish]"
    by (simp add: ex_wish_funds_def ex_funds_def ex_db_def getPlannedExpenses_def ex_wish_def ex_wish2_def)
  have a: "accepts (db ex_wish_funds) TRANSACTIONS" "accepts (db ex_wish_funds) PLANNED_EXPENSES"
    by (simp_all add: ex_wish_funds_def ex_funds_def ex_db_def)
  have e: "expenses ex_wish_funds = []" "getTransactions (db ex_wish_funds) = []"
      "getPlannedExpenses (db ex_wish_funds) = [ex_wish, ex_wish2]"
    by (simp_all add: ex_wish_funds_def ex_funds_def ex_db_def getTransactions_def getPlannedExpenses_def)
  have i: "planned_id ex_wish2 \<noteq> planned_id ex_wish" "estimatedCost ex_wish = 40"
    by (simp_all add: ex_wish_def ex_wish2_def)
  show ?thesis
    using u a e(1) convert_wish [OF u refl, of "''9''" "''t9''"]
    by (simp add: convert_confirm_db transactions_addExpense planned_deletePlanned e i)
qed

text \<open>
  The id of a planned expense is the clock reading in milliseconds, and
  \<open>deletePlannedExpense\<close> removes every item with the id: when two items share it,
  converting one removes both.
\<close>

lemma convert_wish_shared_id_example:
  "getPlannedExpenses (db ex_wish_twin) = [ex_wish, ex_wish2\<lparr>planned_id := ''w1''\<rparr>]
   \<and> plannedExpenses (onConfirm ''9'' ''t9'' (convertWishToExpense ex_wish ex_wish_twin)) = []"
proof -
  have a: "accepts (db ex_wish_twin) TRANSACTIONS" "accepts (db ex_wish_twin) PLANNED_EXPENSES"
    by (simp_all add: ex_wish_twin_def ex_funds_def ex_db_def)
  have e: "getPlannedExpenses (db ex_wish_twin) = [ex_wish, ex_wish2\<lparr>planned_id := ''w1''\<rparr>]"
    by (simp add: ex_wish_twin_def ex_funds_def ex_db_def getPlannedExpenses_def)
  have i: "planned_id ex_wish = ''w1''" by (simp add: ex_wish_def)
  show ?thesis
    by (simp add: convert_confirm_db planned_deletePlanned a e i)
qed

end
